theory Spec2Isabelle
  imports Complex_Main
begin

section \<open>Numbers\<close>

text \<open>
  Every quantity of \<^verbatim>\<open>interactive_simulator.py\<close> is a 64-bit float. Finite floats are
  modelled by the real number they stand for: rounding and overflow are not modelled, so
  an equation of the model holds in the program up to floating-point tolerance (the
  rounding is modelled only at the end, for the comparison of the two monthly series
  value for value). What is
  kept of IEEE arithmetic is what a division can produce: \<^verbatim>\<open>numpy.float64\<close> division
  does not raise on a zero divisor, it returns an infinity or NaN (with a RuntimeWarning).
  The sign of an infinity is not tracked (the model has no signed zero).
\<close>

datatype npfloat = Finite real | Infinite | NaN

fun np_truediv :: "npfloat \<Rightarrow> npfloat \<Rightarrow> npfloat" where
  "np_truediv (Finite a) (Finite b) =
     (if b = 0 then (if a = 0 then NaN else Infinite) else Finite (a / b))"
| "np_truediv (Finite a) Infinite = Finite 0"
| "np_truediv Infinite (Finite b) = Infinite"
| "np_truediv Infinite Infinite = NaN"
| "np_truediv NaN y = NaN"
| "np_truediv x NaN = NaN"

fun np_multiply :: "npfloat \<Rightarrow> npfloat \<Rightarrow> npfloat" where
  "np_multiply (Finite a) (Finite b) = Finite (a * b)"
| "np_multiply (Finite a) Infinite = (if a = 0 then NaN else Infinite)"
| "np_multiply Infinite (Finite b) = (if b = 0 then NaN else Infinite)"
| "np_multiply Infinite Infinite = Infinite"
| "np_multiply NaN y = NaN"
| "np_multiply x NaN = NaN"

fun isfinite :: "npfloat \<Rightarrow> bool" where
  "isfinite (Finite a) = True"
| "isfinite Infinite = False"
| "isfinite NaN = False"

text \<open>The exceptions a Python call of the program can raise.\<close>

datatype py_exception = ValueError | KeyError | IndexError | ZeroDivisionError | OtherException

section \<open>Loss proportions (\<^verbatim>\<open>run_simulation\<close>)\<close>

text \<open>
  The dictionary \<^verbatim>\<open>loss_proportions\<close> that \<^verbatim>\<open>run_simulation\<close> returns, with its three
  keys as fields.
\<close>

record LossProportions =
  dc_system_loss_ratio :: npfloat
  inverter_loss_ratio :: npfloat
  final_yield_ratio :: npfloat

text \<open>
  Lines 79 to 94 of \<^verbatim>\<open>run_simulation\<close>, from the three annual energies of the model chain
  (plane of array, DC, AC, in kWh):
  \<^verbatim>\<open>
    inverter_loss_kwh = dc_energy_kwh - actual_ac_energy_kwh
    dc_system_loss_kwh = poa_energy_kwh - dc_energy_kwh
    total_energy_input = poa_energy_kwh
    loss_proportions = {
        "dc_system_loss_ratio": dc_system_loss_kwh / total_energy_input,
        "inverter_loss_ratio": inverter_loss_kwh / total_energy_input,
        "final_yield_ratio": actual_ac_energy_kwh / total_energy_input }
  \<close>
\<close>

definition loss_proportions :: "real \<Rightarrow> real \<Rightarrow> real \<Rightarrow> LossProportions" where
  "loss_proportions poa_energy_kwh dc_energy_kwh actual_ac_energy_kwh =
     (let inverter_loss_kwh = dc_energy_kwh - actual_ac_energy_kwh;
          dc_system_loss_kwh = poa_energy_kwh - dc_energy_kwh;
          total_energy_input = poa_energy_kwh
      in \<lparr> dc_system_loss_ratio =
             np_truediv (Finite dc_system_loss_kwh) (Finite total_energy_input),
           inverter_loss_ratio =
             np_truediv (Finite inverter_loss_kwh) (Finite total_energy_input),
           final_yield_ratio =
             np_truediv (Finite actual_ac_energy_kwh) (Finite total_energy_input) \<rparr>)"

section \<open>The scaled loss waterfall (\<^verbatim>\<open>update_gui_results\<close>)\<close>

text \<open>The dictionary \<^verbatim>\<open>scaled_losses\<close>, one field for each of its four keys.\<close>

record ScaledLosses =
  poa_energy :: npfloat
  dc_system_loss :: npfloat
  inverter_loss :: npfloat
  final_ac_yield :: npfloat

text \<open>
  Lines 462 to 471 of \<^verbatim>\<open>update_gui_results\<close>:
  \<^verbatim>\<open>
    total_energy_input_scaled = real_specific_yield / loss_proportions['final_yield_ratio']
    dc_system_loss_scaled = total_energy_input_scaled * loss_proportions['dc_system_loss_ratio']
    inverter_loss_scaled = total_energy_input_scaled * loss_proportions['inverter_loss_ratio']
  \<close>
  No statement of these lines raises: the operands are \<^verbatim>\<open>numpy.float64\<close> values, the
  three keys are always present, and there is no check of the divisor. The result type
  has room for an exception so that the absence of one can be stated.
\<close>

definition scaled_losses :: "real \<Rightarrow> LossProportions \<Rightarrow> py_exception + ScaledLosses" where
  "scaled_losses real_specific_yield lp =
     (let total_energy_input_scaled =
            np_truediv (Finite real_specific_yield) (final_yield_ratio lp);
          dc_system_loss_scaled =
            np_multiply total_energy_input_scaled (dc_system_loss_ratio lp);
          inverter_loss_scaled =
            np_multiply total_energy_input_scaled (inverter_loss_ratio lp)
      in Inr \<lparr> poa_energy = total_energy_input_scaled,
               dc_system_loss = dc_system_loss_scaled,
               inverter_loss = inverter_loss_scaled,
               final_ac_yield = Finite real_specific_yield \<rparr>)"

section \<open>Properties of the loss waterfall\<close>

lemma loss_proportions_finite:
  assumes "poa \<noteq> 0"
  shows "loss_proportions poa dc ac =
           \<lparr> dc_system_loss_ratio = Finite ((poa - dc) / poa),
             inverter_loss_ratio = Finite ((dc - ac) / poa),
             final_yield_ratio = Finite (ac / poa) \<rparr>"
  using assms by (simp add: loss_proportions_def)

lemma loss_proportions_sum:
  fixes poa dc ac :: real
  assumes "poa \<noteq> 0"
  shows "(poa - dc) / poa + (dc - ac) / poa + ac / poa = 1"
proof -
  have "(poa - dc) / poa + (dc - ac) / poa + ac / poa = (poa - dc + (dc - ac) + ac) / poa"
    by (simp only: add_divide_distrib)
  also have "\<dots> = poa / poa"
    by simp
  also have "\<dots> = 1"
    using assms by simp
  finally show ?thesis .
qed

lemma scaled_losses_finite:
  assumes "f \<noteq> 0"
  shows "scaled_losses y \<lparr> dc_system_loss_ratio = Finite d, inverter_loss_ratio = Finite i,
                            final_yield_ratio = Finite f \<rparr>
         = Inr \<lparr> poa_energy = Finite (y / f), dc_system_loss = Finite (y / f * d),
                 inverter_loss = Finite (y / f * i), final_ac_yield = Finite y \<rparr>"
  using assms by (simp add: scaled_losses_def)

lemma waterfall_balance:
  fixes y d i f :: real
  assumes "f \<noteq> 0" and "d + i + f = 1"
  shows "y / f - y / f * d - y / f * i = y"
proof -
  have "y / f - y / f * d - y / f * i = y / f * (1 - d - i)"
    by (simp add: right_diff_distrib)
  also have "1 - d - i = f"
    using assms(2) by simp
  also have "y / f * f = y"
    using assms(1) by simp
  finally show ?thesis .
qed

text \<open>
  C1. For loss proportions that are finite ratios summing to one (the invariant of
  LossProportions) with a positive final-yield ratio, and for every real specific
  yield, the waterfall has total input \<open>y / f\<close>, DC loss \<open>total * d\<close> and inverter loss
  \<open>total * i\<close>, and total input minus the two losses is the real specific yield again.
\<close>

theorem reconstruct_waterfall_consistent:
  assumes "0 < f" and "d + i + f = 1"
  shows "\<exists>total dc_loss inv_loss.
           scaled_losses y \<lparr> dc_system_loss_ratio = Finite d, inverter_loss_ratio = Finite i,
                              final_yield_ratio = Finite f \<rparr>
             = Inr \<lparr> poa_energy = Finite total, dc_system_loss = Finite dc_loss,
                     inverter_loss = Finite inv_loss, final_ac_yield = Finite y \<rparr>
           \<and> total = y / f \<and> dc_loss = total * d \<and> inv_loss = total * i
           \<and> total - dc_loss - inv_loss = y"
proof -
  have nz: "f \<noteq> 0" using assms(1) by simp
  show ?thesis
    using scaled_losses_finite [OF nz, of y d i] waterfall_balance [OF nz assms(2), of y]
    by simp
qed

theorem reconstruct_waterfall_consistent_witness:
  "\<exists>total dc_loss inv_loss.
     scaled_losses 950 \<lparr> dc_system_loss_ratio = Finite (3/20),
                          inverter_loss_ratio = Finite (1/20),
                          final_yield_ratio = Finite (4/5) \<rparr>
       = Inr \<lparr> poa_energy = Finite total, dc_system_loss = Finite dc_loss,
               inverter_loss = Finite inv_loss, final_ac_yield = Finite 950 \<rparr>
     \<and> total = 950 / (4/5) \<and> dc_loss = total * (3/20) \<and> inv_loss = total * (1/20)
     \<and> total - dc_loss - inv_loss = 950"
  using reconstruct_waterfall_consistent [of "4/5" "3/20" "1/20" 950] by simp

lemma np_multiply_not_finite:
  assumes "\<not> isfinite x"
  shows "\<not> isfinite (np_multiply x r)"
  using assms by (cases x; cases r) simp_all

lemma np_truediv_by_zero_not_finite: "\<not> isfinite (np_truediv (Finite y) (Finite 0))"
  by simp

text \<open>
  C2, as the program has it. When the final-yield ratio is zero the division is carried
  out all the same: no exception is raised, and the total input, the DC loss and the
  inverter loss written into the waterfall are all infinite or NaN.
\<close>

theorem reconstruct_zero_ratio_not_finite:
  assumes "final_yield_ratio lp = Finite 0"
  shows "\<exists>w. scaled_losses y lp = Inr w
           \<and> \<not> isfinite (poa_energy w)
           \<and> \<not> isfinite (dc_system_loss w)
           \<and> \<not> isfinite (inverter_loss w)
           \<and> final_ac_yield w = Finite y"
proof -
  let ?total = "np_truediv (Finite y) (final_yield_ratio lp)"
  have total: "\<not> isfinite ?total"
    using assms np_truediv_by_zero_not_finite [of y] by simp
  have "scaled_losses y lp
          = Inr \<lparr> poa_energy = ?total,
                  dc_system_loss = np_multiply ?total (dc_system_loss_ratio lp),
                  inverter_loss = np_multiply ?total (inverter_loss_ratio lp),
                  final_ac_yield = Finite y \<rparr>"
    by (simp add: scaled_losses_def Let_def)
  then show ?thesis
    using total np_multiply_not_finite [OF total] by simp
qed

theorem reconstruct_zero_ratio_not_finite_witness:
  "final_yield_ratio (loss_proportions 1000 800 0) = Finite 0
   \<and> (\<exists>w. scaled_losses 950 (loss_proportions 1000 800 0) = Inr w
           \<and> \<not> isfinite (poa_energy w)
           \<and> \<not> isfinite (dc_system_loss w)
           \<and> \<not> isfinite (inverter_loss w)
           \<and> final_ac_yield w = Finite 950)"
proof -
  have h: "final_yield_ratio (loss_proportions 1000 800 0) = Finite 0"
    by (simp add: loss_proportions_def)
  show ?thesis
    using h reconstruct_zero_ratio_not_finite [OF h, of 950] by simp
qed

text \<open>
  The claim C2 as the specification words it fails: for a simulation with no AC energy
  at all (so a specific yield of 0 and a final-yield ratio of 0) the program returns a
  waterfall whose first three entries are NaN; it raises nothing.
\<close>

theorem reconstruct_zero_ratio_counterexample:
  "scaled_losses 0 (loss_proportions 1000 0 0)
     = Inr \<lparr> poa_energy = NaN, dc_system_loss = NaN, inverter_loss = NaN,
             final_ac_yield = Finite 0 \<rparr>"
  by (simp add: scaled_losses_def loss_proportions_def)

text \<open>
  C7. When the three annual energies satisfy \<open>poa \<ge> dc \<ge> ac \<ge> 0\<close> and \<open>poa > 0\<close>, the
  three loss proportions are finite, each lies between 0 and 1, and they sum to 1.
\<close>

theorem loss_proportions_unit_interval:
  assumes "0 \<le> ac" and "ac \<le> dc" and "dc \<le> poa" and "0 < poa"
  shows "\<exists>d i f. loss_proportions poa dc ac
                    = \<lparr> dc_system_loss_ratio = Finite d, inverter_loss_ratio = Finite i,
                        final_yield_ratio = Finite f \<rparr>
           \<and> 0 \<le> d \<and> d \<le> 1 \<and> 0 \<le> i \<and> i \<le> 1 \<and> 0 \<le> f \<and> f \<le> 1
           \<and> d + i + f = 1"
proof -
  have nz: "poa \<noteq> 0" using assms(4) by simp
  have d: "0 \<le> (poa - dc) / poa \<and> (poa - dc) / poa \<le> 1"
    using assms by (simp add: divide_le_eq)
  have i: "0 \<le> (dc - ac) / poa \<and> (dc - ac) / poa \<le> 1"
    using assms by (simp add: divide_le_eq)
  have f: "0 \<le> ac / poa \<and> ac / poa \<le> 1"
    using assms by (simp add: divide_le_eq)
  have s: "(poa - dc) / poa + (dc - ac) / poa + ac / poa = 1"
    by (rule loss_proportions_sum [OF nz])
  show ?thesis
    using loss_proportions_finite [OF nz, of dc ac] d i f s by blast
qed

theorem loss_proportions_unit_interval_witness:
  "\<exists>d i f. loss_proportions 1250 1050 1000
              = \<lparr> dc_system_loss_ratio = Finite d, inverter_loss_ratio = Finite i,
                  final_yield_ratio = Finite f \<rparr>
     \<and> 0 \<le> d \<and> d \<le> 1 \<and> 0 \<le> i \<and> i \<le> 1 \<and> 0 \<le> f \<and> f \<le> 1
     \<and> d + i + f = 1"
  using loss_proportions_unit_interval [of 1000 1050 1250] by simp

section \<open>Time series\<close>

text \<open>
  The AC power of the model chain is a pandas Series indexed by timestamps. A series is
  the list of its (index, value) pairs in index order. Of a timestamp, only the calendar
  fields are kept.
\<close>

record timestamp =
  year :: nat
  month :: nat
  day :: nat
  hour :: nat
  minute :: nat

type_synonym 'i series = "('i \<times> real) list"

text \<open>\<^verbatim>\<open>series * c\<close> and \<^verbatim>\<open>series / c\<close>: every value is changed, the index is kept.\<close>

definition series_mul :: "'i series \<Rightarrow> real \<Rightarrow> 'i series" where
  "series_mul s c = map (\<lambda>(t, w). (t, w * c)) s"

definition series_div :: "'i series \<Rightarrow> real \<Rightarrow> 'i series" where
  "series_div s c = map (\<lambda>(t, w). (t, w / c)) s"

text \<open>
  \<^verbatim>\<open>series.resample('ME').sum()\<close>: one bin for every calendar month from the month of
  the earliest timestamp to the month of the latest one, months without a sample
  included (their sum is 0); an empty series gives an empty result. Months are counted
  from year 0 (\<open>month_key\<close>); a bin is labelled by its (year, month).
\<close>

definition month_key :: "timestamp \<Rightarrow> nat" where
  "month_key t = year t * 12 + (month t - 1)"

definition month_label :: "nat \<Rightarrow> nat \<times> nat" where
  "month_label k = (k div 12, k mod 12 + 1)"

definition month_total :: "nat \<Rightarrow> timestamp series \<Rightarrow> real" where
  "month_total k s = sum_list (map snd (filter (\<lambda>(t, w). month_key t = k) s))"

fun first_key :: "timestamp series \<Rightarrow> nat" where
  "first_key [] = 0"
| "first_key ((t, w) # s) = fold min (map (\<lambda>(t, w). month_key t) s) (month_key t)"

fun last_key :: "timestamp series \<Rightarrow> nat" where
  "last_key [] = 0"
| "last_key ((t, w) # s) = fold max (map (\<lambda>(t, w). month_key t) s) (month_key t)"

definition resample_ME_sum :: "timestamp series \<Rightarrow> (nat \<times> nat) series" where
  "resample_ME_sum s =
     (if s = [] then []
      else map (\<lambda>k. (month_label k, month_total k s)) [first_key s ..< Suc (last_key s)])"

section \<open>Health scaling, monthly production and CO2 (\<^verbatim>\<open>update_gui_results\<close>)\<close>

text \<open>
  Lines 456 to 459:
  \<^verbatim>\<open>
    system_health_factor = self.health_slider.get() / 100.0
    real_specific_yield = specific_yield * system_health_factor
    monthly_plot_path, daily_plot_path = create_plots(ac_power * system_health_factor)
  \<close>
\<close>

definition system_health_factor :: "real \<Rightarrow> real" where
  "system_health_factor health_slider = health_slider / 100"

definition real_specific_yield :: "real \<Rightarrow> real \<Rightarrow> real" where
  "real_specific_yield specific_yield health = specific_yield * health"

definition rescale :: "real \<Rightarrow> timestamp series \<Rightarrow> real \<Rightarrow> real \<times> timestamp series" where
  "rescale specific_yield ac_power health =
     (real_specific_yield specific_yield health, series_mul ac_power health)"

text \<open>
  Line 104 of \<^verbatim>\<open>create_plots\<close>, the series drawn in the monthly chart:
  \<^verbatim>\<open>monthly_yield = ac_power.resample('ME').sum() / 1000\<close>,
  where \<^verbatim>\<open>ac_power\<close> is the scaled series that \<^verbatim>\<open>update_gui_results\<close> passes.
\<close>

definition monthly_yield :: "timestamp series \<Rightarrow> (nat \<times> nat) series" where
  "monthly_yield ac_power = series_div (resample_ME_sum ac_power) 1000"

text \<open>
  Line 479, \<^verbatim>\<open>co2_saved_kg = (real_specific_yield * co2_intensity) / 1000\<close>, and lines 213
  and 214 of \<^verbatim>\<open>create_environmental_plot\<close>:
  \<^verbatim>\<open>years = np.arange(0, 26); cumulative_co2_saved = years * co2_saved_kg\<close>.
\<close>

definition co2_saved_kg :: "real \<Rightarrow> real \<Rightarrow> real" where
  "co2_saved_kg yield co2_intensity = (yield * co2_intensity) / 1000"

definition years :: "real list" where
  "years = map real [0 ..< 26]"

definition cumulative_co2_saved :: "real \<Rightarrow> real list" where
  "cumulative_co2_saved co2 = map (\<lambda>y. y * co2) years"

section \<open>Properties of the scaling\<close>

lemma series_mul_index: "map fst (series_mul s c) = map fst s"
  by (induction s) (auto simp: series_mul_def)

lemma series_mul_values: "map snd (series_mul s c) = map (\<lambda>w. w * c) (map snd s)"
  by (induction s) (auto simp: series_mul_def)

lemma series_mul_linear:
  "map snd (series_mul s (a * h1 + b * h2))
     = map (\<lambda>(x, y). a * x + b * y)
         (zip (map snd (series_mul s h1)) (map snd (series_mul s h2)))"
  by (induction s) (auto simp: series_mul_def algebra_simps)

text \<open>
  C5. For every health factor (so for every one in [0.70, 1.00]) the rescaled yield is
  the raw specific yield times the factor, the rescaled series has the same timestamps
  in the same order and every sample multiplied by the factor, and both are linear in
  the factor.
\<close>

theorem rescale_exact_and_linear:
  "fst (rescale sy ac h) = sy * h
   \<and> map fst (snd (rescale sy ac h)) = map fst ac
   \<and> map snd (snd (rescale sy ac h)) = map (\<lambda>w. w * h) (map snd ac)
   \<and> fst (rescale sy ac (a * h1 + b * h2)) = a * fst (rescale sy ac h1) + b * fst (rescale sy ac h2)
   \<and> map snd (snd (rescale sy ac (a * h1 + b * h2)))
       = map (\<lambda>(x, y). a * x + b * y)
           (zip (map snd (snd (rescale sy ac h1))) (map snd (snd (rescale sy ac h2))))"
proof -
  have lin: "sy * (a * h1 + b * h2) = a * (sy * h1) + b * (sy * h2)"
    by (simp add: algebra_simps)
  have p1: "fst (rescale sy ac h) = sy * h"
    by (simp add: rescale_def real_specific_yield_def)
  have p2: "map fst (snd (rescale sy ac h)) = map fst ac"
    by (simp add: rescale_def series_mul_index)
  have p3: "map snd (snd (rescale sy ac h)) = map (\<lambda>w. w * h) (map snd ac)"
    by (simp only: rescale_def snd_conv series_mul_values)
  have p4: "fst (rescale sy ac (a * h1 + b * h2))
              = a * fst (rescale sy ac h1) + b * fst (rescale sy ac h2)"
    using lin by (simp add: rescale_def real_specific_yield_def)
  have p5: "map snd (snd (rescale sy ac (a * h1 + b * h2)))
       = map (\<lambda>(x, y). a * x + b * y)
           (zip (map snd (snd (rescale sy ac h1))) (map snd (snd (rescale sy ac h2))))"
    by (simp only: rescale_def snd_conv series_mul_linear)
  show ?thesis
    using p1 p2 p3 p4 p5 by blast
qed

text \<open>
  C6. The annual CO2 saving is yield times grid intensity over 1000; the cumulative
  projection has one entry for each of the years 0 to 25, entry \<open>y\<close> being \<open>y\<close> times the
  annual saving (no degradation); for a yield of 1000 and 434 g/kWh the annual saving
  is 434 and the entry of year 10 is 4340.
\<close>

theorem co2_projection:
  assumes "y < 26"
  shows "co2_saved_kg r g = r * g / 1000
         \<and> length (cumulative_co2_saved (co2_saved_kg r g)) = 26
         \<and> cumulative_co2_saved (co2_saved_kg r g) ! y = co2_saved_kg r g * real y
         \<and> co2_saved_kg 1000 434 = 434
         \<and> cumulative_co2_saved (co2_saved_kg 1000 434) ! 10 = 4340"
  using assms by (simp add: co2_saved_kg_def cumulative_co2_saved_def years_def)

theorem co2_projection_witness:
  "(10::nat) < 26
   \<and> co2_saved_kg 1000 434 = 1000 * 434 / 1000
   \<and> length (cumulative_co2_saved (co2_saved_kg 1000 434)) = 26
   \<and> cumulative_co2_saved (co2_saved_kg 1000 434) ! 10 = co2_saved_kg 1000 434 * real (10::nat)
   \<and> co2_saved_kg 1000 434 = 434
   \<and> cumulative_co2_saved (co2_saved_kg 1000 434) ! 10 = 4340"
proof -
  have h: "(10::nat) < 26" by simp
  show ?thesis
    by (rule conjI [OF h co2_projection [OF h, of 1000 434]])
qed

section \<open>Scaling and monthly aggregation\<close>

lemma series_mul_keys:
  "map (\<lambda>(t, w). month_key t) (series_mul s c) = map (\<lambda>(t, w). month_key t) s"
  by (induction s) (auto simp: series_mul_def)

lemma first_key_mul: "first_key (series_mul s c) = first_key s"
proof (cases s)
  case Nil
  then show ?thesis by (simp add: series_mul_def)
next
  case (Cons p s')
  obtain t w where p: "p = (t, w)" by (cases p)
  have "series_mul s c = (t, w * c) # series_mul s' c"
    by (simp add: Cons p series_mul_def)
  then show ?thesis
    by (simp add: Cons p series_mul_keys)
qed

lemma last_key_mul: "last_key (series_mul s c) = last_key s"
proof (cases s)
  case Nil
  then show ?thesis by (simp add: series_mul_def)
next
  case (Cons p s')
  obtain t w where p: "p = (t, w)" by (cases p)
  have "series_mul s c = (t, w * c) # series_mul s' c"
    by (simp add: Cons p series_mul_def)
  then show ?thesis
    by (simp add: Cons p series_mul_keys)
qed

lemma month_total_mul: "month_total k (series_mul s c) = month_total k s * c"
  by (induction s) (auto simp: series_mul_def month_total_def distrib_right)

lemma series_mul_Nil_iff: "series_mul s c = [] \<longleftrightarrow> s = []"
  by (simp add: series_mul_def)

lemma resample_mul: "resample_ME_sum (series_mul s c) = series_mul (resample_ME_sum s) c"
  by (simp add: resample_ME_sum_def series_mul_Nil_iff first_key_mul last_key_mul
      month_total_mul)
     (simp add: series_mul_def)

lemma series_div_mul_commute: "series_div (series_mul s c) d = series_mul (series_div s d) c"
  by (induction s) (auto simp: series_mul_def series_div_def)

section \<open>Payback period (\<^verbatim>\<open>create_economic_plot\<close>)\<close>

text \<open>
  Lines 174 to 184:
  \<^verbatim>\<open>
    years = np.arange(0, 26)
    cumulative_savings = np.zeros_like(years, dtype=float)
    current_yield = specific_yield
    for i in range(1, len(years)):
        annual_savings = current_yield * price
        cumulative_savings[i] = cumulative_savings[i-1] + annual_savings
        current_yield *= (1 - annual_degradation_rate)
    remaining_cost = cost - cumulative_savings
  \<close>
  \<open>savings_loop n previous current_yield\<close> is the loop with \<open>n\<close> iterations left, where
  \<open>previous\<close> is the entry written last; it returns the entries still to be written.
\<close>

fun savings_loop :: "nat \<Rightarrow> real \<Rightarrow> real \<Rightarrow> real \<Rightarrow> real \<Rightarrow> real list" where
  "savings_loop 0 previous current_yield price rate = []"
| "savings_loop (Suc n) previous current_yield price rate =
     (let annual_savings = current_yield * price;
          cumulative = previous + annual_savings
      in cumulative # savings_loop n cumulative (current_yield * (1 - rate)) price rate)"

definition cumulative_savings :: "real \<Rightarrow> real \<Rightarrow> real \<Rightarrow> real list" where
  "cumulative_savings specific_yield price rate =
     0 # savings_loop 25 0 specific_yield price rate"

definition remaining_cost :: "real \<Rightarrow> real \<Rightarrow> real \<Rightarrow> real \<Rightarrow> real list" where
  "remaining_cost cost specific_yield price rate =
     map (\<lambda>c. cost - c) (cumulative_savings specific_yield price rate)"

text \<open>
  Line 190, \<^verbatim>\<open>payback_period = np.interp(0, -remaining_cost, years)\<close>, calls numpy.
  \<open>np_interp\<close> follows what numpy's compiled \<^verbatim>\<open>arr_interp\<close> does for a scalar \<open>x\<close> and no
  \<^verbatim>\<open>left\<close>, \<^verbatim>\<open>right\<close> or \<^verbatim>\<open>period\<close>: it looks for the index \<open>j\<close> with
  \<open>xp[j] \<le> x < xp[j+1]\<close> by \<^verbatim>\<open>binary_search_with_guess\<close> (first guess 0), returns \<open>fp[0]\<close>
  below the sample points and \<open>fp[-1]\<close> above them (it never extrapolates), and
  interpolates linearly in between. numpy does not check that \<open>xp\<close> is increasing. The
  slope is only computed where the search has seen \<open>xp[j] \<le> x < xp[j+1]\<close>, so its divisor
  is positive. An empty \<open>xp\<close>, or an \<open>fp\<close> of another length, raises ValueError.
\<close>

function linear_search :: "real \<Rightarrow> real list \<Rightarrow> nat \<Rightarrow> nat" where
  "linear_search key arr i =
     (if i < length arr \<and> key \<ge> arr ! i then linear_search key arr (Suc i) else i)"
  by pat_completeness auto
termination
  by (relation "measure (\<lambda>(key, arr, i). length arr - i)") auto

function bisection :: "real \<Rightarrow> real list \<Rightarrow> nat \<Rightarrow> nat \<Rightarrow> nat" where
  "bisection key arr imin imax =
     (if imin < imax
      then (if key \<ge> arr ! (imin + (imax - imin) div 2)
            then bisection key arr (imin + (imax - imin) div 2 + 1) imax
            else bisection key arr imin (imin + (imax - imin) div 2))
      else imin)"
  by pat_completeness auto
termination
  by (relation "measure (\<lambda>(key, arr, imin, imax). imax - imin)") auto

definition LIKELY_IN_CACHE_SIZE :: nat where
  "LIKELY_IN_CACHE_SIZE = 8"

definition binary_search_with_guess :: "real \<Rightarrow> real list \<Rightarrow> nat \<Rightarrow> int" where
  "binary_search_with_guess key arr guess0 =
     (let len = length arr in
      if key > arr ! (len - 1) then int len
      else if key < arr ! 0 then - 1
      else if len \<le> 4 then int (linear_search key arr 1) - 1
      else
        let guess = max 1 (min guess0 (len - 3)) in
        if key < arr ! guess then
          (if key < arr ! (guess - 1) then
             int (bisection key arr
                    (if guess > LIKELY_IN_CACHE_SIZE \<and> key \<ge> arr ! (guess - LIKELY_IN_CACHE_SIZE)
                     then guess - LIKELY_IN_CACHE_SIZE else 0)
                    (guess - 1)) - 1
           else int (guess - 1))
        else if key < arr ! (guess + 1) then int guess
        else if key < arr ! (guess + 2) then int (guess + 1)
        else
          int (bisection key arr (guess + 2)
                 (if guess + LIKELY_IN_CACHE_SIZE + 1 < len \<and> key < arr ! (guess + LIKELY_IN_CACHE_SIZE)
                  then guess + LIKELY_IN_CACHE_SIZE else len)) - 1)"

definition np_interp :: "real \<Rightarrow> real list \<Rightarrow> real list \<Rightarrow> py_exception + real" where
  "np_interp x xp fp =
     (let lenxp = length xp in
      if lenxp = 0 then Inl ValueError
      else if length fp \<noteq> lenxp then Inl ValueError
      else
        let lval = fp ! 0; rval = fp ! (lenxp - 1) in
        if lenxp = 1 then Inr (if x < xp ! 0 then lval else if x > xp ! 0 then rval else fp ! 0)
        else
          let j = binary_search_with_guess x xp 0 in
          if j = - 1 then Inr lval
          else if j = int lenxp then Inr rval
          else if j = int lenxp - 1 then Inr (fp ! nat j)
          else if xp ! nat j = x then Inr (fp ! nat j)
          else
            let slope = (fp ! (nat j + 1) - fp ! nat j) / (xp ! (nat j + 1) - xp ! nat j)
            in Inr (slope * (x - xp ! nat j) + fp ! nat j))"

text \<open>
  Lines 190 to 194 and 205. The payback point is drawn in the chart only when
  \<^verbatim>\<open>0 < payback_period < 25\<close>; the function returns \<^verbatim>\<open>payback_period\<close> in every case. The
  result of \<open>create_economic_plot\<close> here is the point drawn (if any) and the value
  returned.
\<close>

definition payback_period :: "real \<Rightarrow> real \<Rightarrow> real \<Rightarrow> real \<Rightarrow> py_exception + real" where
  "payback_period cost specific_yield price annual_degradation_rate =
     np_interp 0
       (map uminus (remaining_cost cost specific_yield price annual_degradation_rate))
       years"

definition create_economic_plot ::
  "real \<Rightarrow> real \<Rightarrow> real \<Rightarrow> real \<Rightarrow> py_exception + (real option \<times> real)" where
  "create_economic_plot cost specific_yield price annual_degradation_rate =
     (case payback_period cost specific_yield price annual_degradation_rate of
        Inl e \<Rightarrow> Inl e
      | Inr p \<Rightarrow> Inr (if 0 < p \<and> p < 25 then Some p else None, p))"

declare bisection.simps [simp del]

declare linear_search.simps [simp del]

section \<open>Properties of the payback period\<close>

lemma savings_loop_length: "length (savings_loop n previous cy price rate) = n"
  by (induction n arbitrary: previous cy) (simp_all add: Let_def)

lemma savings_loop_sorted:
  assumes "rate \<le> 1"
  shows "0 \<le> cy * price \<Longrightarrow> sorted (previous # savings_loop n previous cy price rate)"
proof (induction n arbitrary: previous cy)
  case 0
  then show ?case by simp
next
  case (Suc n)
  let ?cum = "previous + cy * price"
  have "0 \<le> (cy * price) * (1 - rate)"
    using Suc.prems assms by simp
  then have "0 \<le> cy * (1 - rate) * price"
    by (simp add: mult_ac)
  then have "sorted (?cum # savings_loop n ?cum (cy * (1 - rate)) price rate)"
    by (rule Suc.IH)
  moreover have "previous \<le> ?cum"
    using Suc.prems by simp
  ultimately have "sorted (previous # ?cum # savings_loop n ?cum (cy * (1 - rate)) price rate)"
    by (simp only: sorted2 simp_thms)
  then show ?case
    by (simp only: savings_loop.simps Let_def)
qed

lemma savings_loop_nth:
  assumes "k < n"
  shows "savings_loop n previous cy price rate ! k
           = (previous # savings_loop n previous cy price rate) ! k + cy * (1 - rate) ^ k * price"
  using assms
proof (induction n arbitrary: previous cy k)
  case 0
  then show ?case by simp
next
  case (Suc n)
  show ?case
  proof (cases k)
    case 0
    then show ?thesis by (simp add: Let_def)
  next
    case (Suc k')
    then have "k' < n" using Suc.prems by simp
    from Suc.IH [OF this, of "previous + cy * price" "cy * (1 - rate)"]
    show ?thesis using Suc by (simp add: Let_def power_commutes mult.assoc)
  qed
qed


lemma bisection_sorted:
  "sorted arr \<Longrightarrow> Suc j < length arr \<Longrightarrow> arr ! j \<le> key \<Longrightarrow> key < arr ! Suc j
   \<Longrightarrow> imin \<le> Suc j \<Longrightarrow> Suc j \<le> imax \<Longrightarrow> imax \<le> length arr
   \<Longrightarrow> bisection key arr imin imax = Suc j"
proof (induction key arr imin imax rule: bisection.induct)
  case (1 key arr imin imax)
  let ?mid = "imin + (imax - imin) div 2"
  show ?case
  proof (cases "imin < imax")
    case False
    then have "imin = Suc j" using "1.prems" by simp
    then show ?thesis using False by (subst bisection.simps) simp
  next
    case True
    then have mid: "imin \<le> ?mid" "?mid < imax" by auto
    show ?thesis
    proof (cases "arr ! ?mid \<le> key")
      case le: True
      have "?mid \<le> j"
      proof (rule ccontr)
        assume "\<not> ?mid \<le> j"
        then have "Suc j \<le> ?mid" by simp
        moreover have "?mid < length arr" using mid "1.prems" by simp
        ultimately have "arr ! Suc j \<le> arr ! ?mid"
          using "1.prems"(1) by (simp add: sorted_nth_mono)
        then show False using le "1.prems"(4) by simp
      qed
      then have "?mid + 1 \<le> Suc j" by simp
      from "1.IH"(1) [OF True le "1.prems"(1-4) this "1.prems"(6,7)]
      show ?thesis using True le by (subst bisection.simps) simp
    next
      case gt: False
      have "Suc j \<le> ?mid"
      proof (rule ccontr)
        assume "\<not> Suc j \<le> ?mid"
        then have "?mid \<le> j" by simp
        moreover have "j < length arr" using "1.prems" by simp
        ultimately have "arr ! ?mid \<le> arr ! j"
          using "1.prems"(1) by (simp add: sorted_nth_mono)
        then show False using gt "1.prems"(3) by simp
      qed
      moreover have "?mid \<le> length arr" using mid "1.prems" by simp
      ultimately have "bisection key arr imin ?mid = Suc j"
        using "1.IH"(2) [OF True gt "1.prems"(1-5)] by simp
      then show ?thesis using True gt by (subst bisection.simps) simp
    qed
  qed
qed

lemma linear_search_sorted:
  "sorted arr \<Longrightarrow> Suc j < length arr \<Longrightarrow> arr ! j \<le> key \<Longrightarrow> key < arr ! Suc j
   \<Longrightarrow> i \<le> Suc j \<Longrightarrow> linear_search key arr i = Suc j"
proof (induction key arr i rule: linear_search.induct)
  case (1 key arr i)
  show ?case
  proof (cases "i = Suc j")
    case True
    then show ?thesis using "1.prems" by (subst linear_search.simps) simp
  next
    case False
    then have lt: "i \<le> j" using "1.prems" by simp
    then have "arr ! i \<le> arr ! j"
      using "1.prems" by (simp add: sorted_nth_mono)
    then have c: "i < length arr \<and> arr ! i \<le> key" using "1.prems" lt by simp
    from "1.IH" [OF c "1.prems"(1-4)] lt
    show ?thesis using c by (subst linear_search.simps) simp
  qed
qed

lemma binary_search_with_guess_short:
  assumes "length arr \<le> 4" and "\<not> key > arr ! (length arr - 1)" and "\<not> key < arr ! 0"
  shows "binary_search_with_guess key arr 0 = int (linear_search key arr 1) - 1"
  using assms by (simp add: binary_search_with_guess_def Let_def)

lemma binary_search_with_guess_long:
  assumes "4 < length arr" and "\<not> key > arr ! (length arr - 1)" and "\<not> key < arr ! 0"
  shows "binary_search_with_guess key arr 0 =
           (if key < arr ! 1 then 0
            else if key < arr ! 2 then 1
            else if key < arr ! 3 then 2
            else int (bisection key arr 3
                        (if 10 < length arr \<and> key < arr ! 9 then 9 else length arr)) - 1)"
proof -
  have g: "max 1 (min 0 (length arr - 3)) = (1::nat)" by simp
  have i: "(1::nat) - 1 = 0" "(1::nat) + 1 = 2" "(1::nat) + 2 = 3"
    "(1::nat) + 8 = 9" "(1::nat) + 8 + 1 = 10" by simp_all
  have a: "\<not> length arr \<le> 4" using assms(1) by simp
  show ?thesis
    unfolding binary_search_with_guess_def Let_def LIKELY_IN_CACHE_SIZE_def g i
    using a assms(2,3) by simp
qed

lemma binary_search_with_guess_sorted:
  assumes "sorted arr" and "Suc j < length arr" and "arr ! j \<le> key" and "key < arr ! Suc j"
  shows "binary_search_with_guess key arr 0 = int j"
proof -
  let ?len = "length arr"
  have last: "\<not> key > arr ! (?len - 1)"
  proof -
    have "arr ! Suc j \<le> arr ! (?len - 1)"
      using assms(1,2) by (simp add: sorted_nth_mono)
    then show ?thesis using assms(4) by simp
  qed
  have below: "\<not> key < arr ! i" if "i \<le> j" for i
  proof -
    have "arr ! i \<le> arr ! j" using that assms(1,2) by (simp add: sorted_nth_mono)
    then show ?thesis using assms(3) by simp
  qed
  have above: "key < arr ! i" if "Suc j \<le> i" "i < ?len" for i
  proof -
    have "arr ! Suc j \<le> arr ! i" using that assms(1) by (simp add: sorted_nth_mono)
    then show ?thesis using assms(4) by simp
  qed
  have first: "\<not> key < arr ! 0" using below [of 0] by simp
  show ?thesis
  proof (cases "?len \<le> 4")
    case True
    have "linear_search key arr 1 = Suc j"
      using linear_search_sorted [OF assms, of 1] by simp
    then show ?thesis
      using binary_search_with_guess_short [OF True last first] by simp
  next
    case False
    then have long: "4 < ?len" by simp
    note unfold = binary_search_with_guess_long [OF long last first]
    consider "j = 0" | "j = 1" | "j = 2" | "3 \<le> j" by linarith
    then show ?thesis
    proof cases
      case 1
      then have "key < arr ! 1" using assms(4) by simp
      then show ?thesis using unfold 1 by simp
    next
      case 2
      have "\<not> key < arr ! 1" using below [of 1] 2 by simp
      moreover have "key < arr ! 2" using above [of 2] 2 long by simp
      ultimately show ?thesis using unfold 2 by simp
    next
      case 3
      have "\<not> key < arr ! 1" "\<not> key < arr ! 2" using below [of 1] below [of 2] 3 by simp_all
      moreover have "key < arr ! 3" using above [of 3] 3 long by simp
      ultimately show ?thesis using unfold 3 by simp
    next
      case 4
      then have n: "\<not> key < arr ! 1" "\<not> key < arr ! 2" "\<not> key < arr ! 3"
        using below [of 1] below [of 2] below [of 3] by simp_all
      let ?imax = "if 10 < ?len \<and> key < arr ! 9 then 9 else ?len"
      have hi: "Suc j \<le> ?imax"
      proof (cases "10 < ?len \<and> key < arr ! 9")
        case True
        have "\<not> 9 \<le> j" using below [of 9] True by blast
        then show ?thesis using True by simp
      next
        case False
        then show ?thesis using assms(2) by auto
      qed
      have le: "?imax \<le> ?len" by simp
      have lo: "3 \<le> Suc j" using 4 by simp
      have "bisection key arr 3 ?imax = Suc j"
        by (rule bisection_sorted [OF assms lo hi le])
      then show ?thesis
        using unfold n by simp
    qed
  qed
qed


lemma np_interp_above:
  assumes "length fp = length xp" and "2 \<le> length xp" and "xp ! (length xp - 1) < x"
  shows "np_interp x xp fp = Inr (fp ! (length xp - 1))"
proof -
  have "binary_search_with_guess x xp 0 = int (length xp)"
    using assms(3) by (simp add: binary_search_with_guess_def Let_def)
  moreover have "xp \<noteq> []" "length xp \<noteq> 1" "int (length xp) \<noteq> - 1"
    using assms(2) by auto
  ultimately show ?thesis
    using assms(1) by (simp add: np_interp_def Let_def)
qed

lemma np_interp_bracket:
  assumes "sorted xp" and "length fp = length xp" and "Suc j < length xp"
    and "xp ! j \<le> x" and "x < xp ! Suc j"
  shows "np_interp x xp fp
           = Inr (fp ! j + (fp ! Suc j - fp ! j) / (xp ! Suc j - xp ! j) * (x - xp ! j))"
proof -
  have j: "binary_search_with_guess x xp 0 = int j"
    by (rule binary_search_with_guess_sorted [OF assms(1,3,4,5)])
  have a: "int j \<noteq> - 1" "int j \<noteq> int (length xp)" "int j \<noteq> int (length xp) - 1"
    "xp \<noteq> []" "length xp \<noteq> 1"
    using assms(3) by auto
  show ?thesis
    using assms(2) a by (simp add: np_interp_def Let_def j)
qed

lemma np_interp_returns:
  assumes "xp \<noteq> []" and "length fp = length xp"
  shows "\<exists>v. np_interp x xp fp = Inr v"
  using assms by (simp add: np_interp_def Let_def)

lemma cumulative_savings_length: "length (cumulative_savings sy price rate) = 26"
  by (simp add: cumulative_savings_def savings_loop_length)

lemma remaining_cost_length: "length (remaining_cost cost sy price rate) = 26"
  by (simp add: remaining_cost_def cumulative_savings_length)

lemma years_length: "length years = 26"
  by (simp add: years_def)

lemma years_nth: "k < 26 \<Longrightarrow> years ! k = real k"
  by (simp add: years_def)

lemma neg_remaining_nth:
  "k < 26 \<Longrightarrow> map uminus (remaining_cost cost sy price rate) ! k
                = - (remaining_cost cost sy price rate ! k)"
  by (simp add: remaining_cost_length)

lemma sorted_neg_remaining:
  fixes cs :: "real list"
  shows "sorted cs \<Longrightarrow> sorted (map uminus (map (\<lambda>c. cost - c) cs))"
  by (induction cs) auto

lemma neg_remaining_sorted:
  assumes "0 \<le> sy * price" and "rate \<le> 1"
  shows "sorted (map uminus (remaining_cost cost sy price rate))"
  unfolding remaining_cost_def cumulative_savings_def
  by (rule sorted_neg_remaining) (rule savings_loop_sorted [OF assms(2,1)])

lemma payback_period_returns: "\<exists>p. payback_period cost sy price rate = Inr p"
proof -
  let ?xp = "map uminus (remaining_cost cost sy price rate)"
  have len: "length ?xp = 26"
    by (simp add: remaining_cost_length)
  then have ne: "?xp \<noteq> []"
    by auto
  have eq: "length years = length ?xp"
    by (simp add: remaining_cost_length years_length)
  show ?thesis
    unfolding payback_period_def by (rule np_interp_returns [OF ne eq])
qed

lemma create_economic_plot_returns:
  "\<exists>point p. create_economic_plot cost sy price rate = Inr (point, p)"
  using payback_period_returns [of cost sy price rate]
  by (auto simp: create_economic_plot_def)

lemma payback_period_clamped:
  assumes "0 < remaining_cost cost sy price rate ! 25"
  shows "payback_period cost sy price rate = Inr 25"
proof -
  let ?xp = "map uminus (remaining_cost cost sy price rate)"
  have len: "length ?xp = 26" by (simp add: remaining_cost_length)
  have "?xp ! (length ?xp - 1) < 0"
    using assms neg_remaining_nth [of 25 cost sy price rate] by (simp add: remaining_cost_length)
  then have "np_interp 0 ?xp years = Inr (years ! (length ?xp - 1))"
    using np_interp_above [of years ?xp 0] len years_length by simp
  then have "np_interp 0 ?xp years = Inr 25"
    using years_nth [of 25] by (simp add: remaining_cost_length)
  then show ?thesis
    by (simp add: payback_period_def)
qed

lemma savings_loop_no_income:
  assumes "cy * price = 0"
  shows "set (savings_loop n previous cy price rate) \<subseteq> {previous}"
  using assms
proof (induction n arbitrary: previous cy)
  case 0
  then show ?case by simp
next
  case (Suc n)
  have "cy * (1 - rate) * price = 0" using Suc.prems by auto
  from Suc.IH [OF this, of previous] Suc.prems show ?case by (auto simp: Let_def)
qed

lemma remaining_no_income:
  assumes "price = 0 \<or> sy = 0"
  shows "remaining_cost cost sy price rate ! 25 = cost"
proof -
  have z: "sy * price = 0" using assms by auto
  have "savings_loop 25 0 sy price rate ! 24 \<in> set (savings_loop 25 0 sy price rate)"
    by (simp add: savings_loop_length)
  then have "savings_loop 25 0 sy price rate ! 24 = 0"
    using savings_loop_no_income [OF z, of 25 0 rate] by blast
  then show ?thesis
    by (simp add: remaining_cost_def cumulative_savings_def savings_loop_length nth_Cons')
qed

lemma cumulative_savings_0: "cumulative_savings sy price rate ! 0 = 0"
  by (simp add: cumulative_savings_def)

lemma cumulative_savings_Suc:
  assumes "y < 25"
  shows "cumulative_savings sy price rate ! Suc y
           = cumulative_savings sy price rate ! y + sy * (1 - rate) ^ y * price"
  using savings_loop_nth [OF assms, of 0 sy price rate] by (simp add: cumulative_savings_def)

lemma remaining_cost_nth:
  assumes "y < 26"
  shows "remaining_cost cost sy price rate ! y = cost - cumulative_savings sy price rate ! y"
  using assms by (simp add: remaining_cost_def cumulative_savings_length)

lemma payback_period_bracket:
  assumes "0 \<le> sy * price" and "rate \<le> 1" and "j < 25"
    and "0 \<le> remaining_cost cost sy price rate ! j"
    and "remaining_cost cost sy price rate ! Suc j < 0"
  shows "payback_period cost sy price rate
           = Inr (real j + remaining_cost cost sy price rate ! j
                            / (remaining_cost cost sy price rate ! j
                               - remaining_cost cost sy price rate ! Suc j))"
proof -
  let ?r = "remaining_cost cost sy price rate"
  let ?xp = "map uminus ?r"
  let ?p = "real j + ?r ! j / (?r ! j - ?r ! Suc j)"
  have s: "sorted ?xp" by (rule neg_remaining_sorted [OF assms(1,2)])
  have len: "length years = length ?xp" by (simp add: years_length remaining_cost_length)
  have sj: "Suc j < length ?xp" using assms(3) by (simp add: remaining_cost_length)
  have xj: "?xp ! j = - (?r ! j)" using assms(3) by (simp add: remaining_cost_length)
  have xs: "?xp ! Suc j = - (?r ! Suc j)" using assms(3) by (simp add: remaining_cost_length)
  have lo: "?xp ! j \<le> 0" using assms(4) xj by simp
  have hi: "0 < ?xp ! Suc j" using assms(5) xs by simp
  have yj: "years ! j = real j" "years ! Suc j = real j + 1"
    using assms(3) years_nth [of j] years_nth [of "Suc j"] by simp_all
  have "np_interp 0 ?xp years
          = Inr (years ! j + (years ! Suc j - years ! j) / (?xp ! Suc j - ?xp ! j) * (0 - ?xp ! j))"
    by (rule np_interp_bracket [OF s len sj lo hi])
  also have "\<dots> = Inr ?p"
    by (simp only: yj xj xs) simp
  finally show ?thesis
    by (simp only: payback_period_def)
qed

lemma example_remaining_4: "remaining_cost 1500 1100 (3/10) (1/200) ! 4 = 151893633 / 800000"
proof -
  let ?c = "cumulative_savings 1100 (3/10) (1/200)"
  have c1: "?c ! 1 = 330"
    using cumulative_savings_Suc [of 0 1100 "3/10" "1/200"] cumulative_savings_0 by simp
  have c2: "?c ! 2 = 330 + 1100 * (199/200) * (3/10)"
    using cumulative_savings_Suc [of 1 1100 "3/10" "1/200"] c1 by (simp add: numeral_2_eq_2)
  have c3: "?c ! 3 = ?c ! 2 + 1100 * (199/200)^2 * (3/10)"
    using cumulative_savings_Suc [of 2 1100 "3/10" "1/200"] by (simp add: numeral_3_eq_3 numeral_2_eq_2)
  have c4: "?c ! 4 = ?c ! 3 + 1100 * (199/200)^3 * (3/10)"
    using cumulative_savings_Suc [of 3 1100 "3/10" "1/200"] by (simp add: eval_nat_numeral)
  show ?thesis
    using remaining_cost_nth [of 4 1500 1100 "3/10" "1/200"] c4 c3 c2
    by (simp add: power2_eq_square power3_eq_cube)
qed

lemma example_remaining_5:
  "remaining_cost 1500 1100 (3/10) (1/200) ! 5 = - (21373167033 / 160000000)"
proof -
  let ?c = "cumulative_savings 1100 (3/10) (1/200)"
  have "?c ! 5 = ?c ! 4 + 1100 * (199/200)^4 * (3/10)"
    using cumulative_savings_Suc [of 4 1100 "3/10" "1/200"] by (simp add: eval_nat_numeral)
  moreover have "?c ! 4 = 1500 - 151893633 / 800000"
    using example_remaining_4 remaining_cost_nth [of 4 1500 1100 "3/10" "1/200"] by simp
  ultimately show ?thesis
    using remaining_cost_nth [of 5 1500 1100 "3/10" "1/200"]
    by (simp add: power4_eq_xxxx)
qed

lemma example_payback_period:
  "payback_period 1500 1100 (3/10) (1/200) = Inr (79128767044 / 17250631211)"
proof -
  have a: "(0::real) \<le> 1100 * (3/10)" "(1/200::real) \<le> 1" "(4::nat) < 25" by simp_all
  have r4: "0 \<le> remaining_cost 1500 1100 (3/10) (1/200) ! 4"
    by (simp add: example_remaining_4)
  have r5: "remaining_cost 1500 1100 (3/10) (1/200) ! Suc 4 < 0"
    using example_remaining_5 by (simp add: eval_nat_numeral)
  have s5: "remaining_cost 1500 1100 (3/10) (1/200) ! Suc 4 = - (21373167033 / 160000000)"
    using example_remaining_5 by (simp add: eval_nat_numeral)
  show ?thesis
    by (simp only: payback_period_bracket [OF a r4 r5] example_remaining_4 s5) simp
qed

text \<open>
  C4. The cumulative savings start at 0 and grow each year by the yield of the year before
  times the price, the yield decaying geometrically; the remaining cost is the cost minus
  the cumulative savings. When savings never decrease (\<open>yield * price \<ge> 0\<close> and a
  degradation rate of at most 1) and the remaining cost is still non-negative at year \<open>j\<close>
  and negative at year \<open>j + 1\<close>, the payback period is the linear interpolation between
  these two years. For a cost of 1500, a first-year yield of 1100, a price of 0.30 and a
  degradation rate of 0.005 it is about 4.587 years, within 0.05 of
  \<open>1500 / (1100 * 0.30)\<close>.
\<close>

theorem payback_by_linear_interpolation:
  assumes "0 \<le> sy * price" and "rate \<le> 1" and "j < 25"
    and "0 \<le> remaining_cost cost sy price rate ! j"
    and "remaining_cost cost sy price rate ! Suc j < 0"
  shows "cumulative_savings sy price rate ! 0 = 0
         \<and> (\<forall>y<25. cumulative_savings sy price rate ! Suc y
                      = cumulative_savings sy price rate ! y + sy * (1 - rate) ^ y * price)
         \<and> (\<forall>y<26. remaining_cost cost sy price rate ! y
                      = cost - cumulative_savings sy price rate ! y)
         \<and> payback_period cost sy price rate
             = Inr (real j + remaining_cost cost sy price rate ! j
                              / (remaining_cost cost sy price rate ! j
                                 - remaining_cost cost sy price rate ! Suc j))
         \<and> payback_period 1500 1100 (3/10) (1/200) = Inr (79128767044 / 17250631211)
         \<and> \<bar>79128767044 / 17250631211 - 1500 / (1100 * (3/10))\<bar> < (1/20 :: real)"
proof -
  have "\<bar>79128767044 / 17250631211 - 1500 / (1100 * (3/10))\<bar> < (1/20 :: real)"
    by simp
  then show ?thesis
    using cumulative_savings_0 [of sy price rate]
      cumulative_savings_Suc [of _ sy price rate]
      remaining_cost_nth [of _ cost sy price rate]
      payback_period_bracket [OF assms]
      example_payback_period
    by blast
qed

theorem payback_by_linear_interpolation_witness:
  "payback_period 1500 1100 (3/10) (1/200)
     = Inr (real 4 + remaining_cost 1500 1100 (3/10) (1/200) ! 4
                      / (remaining_cost 1500 1100 (3/10) (1/200) ! 4
                         - remaining_cost 1500 1100 (3/10) (1/200) ! Suc 4))
   \<and> 0 \<le> remaining_cost 1500 1100 (3/10) (1/200) ! 4
   \<and> remaining_cost 1500 1100 (3/10) (1/200) ! Suc 4 < 0"
proof -
  have a: "(0::real) \<le> 1100 * (3/10)" "(1/200::real) \<le> 1" "(4::nat) < 25" by simp_all
  have r4: "0 \<le> remaining_cost 1500 1100 (3/10) (1/200) ! 4"
    by (simp add: example_remaining_4)
  have r5: "remaining_cost 1500 1100 (3/10) (1/200) ! Suc 4 < 0"
    using example_remaining_5 by (simp add: eval_nat_numeral)
  show ?thesis
    using payback_by_linear_interpolation [OF a r4 r5] r4 r5 by blast
qed

text \<open>
  C3, as the program has it. When the remaining cost is still positive after year 25 (in
  particular for a positive cost with a price of 0 or a first-year yield of 0), the
  payback period returned is the number 25, the last year of the horizon (the
  interpolation is clamped there, never continued beyond it), and no payback point is
  drawn in the chart.
\<close>

theorem no_payback_returns_horizon:
  assumes "0 < remaining_cost cost sy price rate ! 25 \<or> (0 < cost \<and> (price = 0 \<or> sy = 0))"
  shows "create_economic_plot cost sy price rate = Inr (None, 25)"
proof -
  have "0 < remaining_cost cost sy price rate ! 25"
    using assms remaining_no_income [of price sy cost rate] by auto
  then have "payback_period cost sy price rate = Inr 25"
    by (rule payback_period_clamped)
  then show ?thesis
    by (simp add: create_economic_plot_def)
qed

theorem no_payback_returns_horizon_witness:
  "(0 < remaining_cost 1500 0 (3/10) (1/200) ! 25 \<or> ((0::real) < 1500 \<and> ((3/10::real) = 0 \<or> (0::real) = 0)))
   \<and> create_economic_plot 1500 0 (3/10) (1/200) = Inr (None, 25)"
proof -
  have h: "0 < remaining_cost 1500 0 (3/10) (1/200) ! 25
           \<or> ((0::real) < 1500 \<and> ((3/10::real) = 0 \<or> (0::real) = 0))"
    by simp
  show ?thesis
    by (rule conjI [OF h no_payback_returns_horizon [OF h]])
qed

text \<open>
  The claim C3 as the specification words it fails: with a price of 0 the cost of 1500 is
  never recovered, and the program returns 25 as the payback period, a number of years.
\<close>

theorem no_payback_counterexample:
  "create_economic_plot 1500 1100 0 (1/200) = Inr (None, 25)"
proof -
  have "remaining_cost 1500 1100 0 (1/200) ! 25 = 1500"
    by (rule remaining_no_income) simp
  then have "payback_period 1500 1100 0 (1/200) = Inr 25"
    by (simp add: payback_period_clamped)
  then show ?thesis
    by (simp add: create_economic_plot_def)
qed

section \<open>The run of a simulation (\<^verbatim>\<open>SolarSimulatorApp\<close>)\<close>

text \<open>
  What \<^verbatim>\<open>run_simulation_task\<close> reads from the entry widgets (lines 438 to 441), and what
  \<^verbatim>\<open>run_simulation\<close> returns to it.
\<close>

record Scenario =
  sc_cost :: real
  sc_price :: real
  sc_co2_intensity :: real
  sc_annual_degradation_rate :: real

record SimOutput =
  out_specific_yield :: real
  out_ac_power :: "timestamp series"
  out_module_name :: string
  out_inverter_name :: string
  out_loss_proportions :: LossProportions

text \<open>
  The results of a run: the summary values, the losses and the monthly production that
  \<^verbatim>\<open>update_gui_results\<close> writes into the labels and charts and keeps in
  \<^verbatim>\<open>self.simulation_results\<close>.
\<close>

record SimulationResults =
  res_specific_yield :: real
  res_annual_savings :: real
  res_payback_period :: real
  res_co2_saved_kg :: real
  res_losses :: ScaledLosses
  res_monthly_chart :: "(nat \<times> nat) series"
  res_monthly_production :: "(nat \<times> nat) series"

text \<open>
  The state of the window, as far as a run touches it: the run button, the export button,
  the status line, the results the four result labels show (none before the first run),
  the five chart images (monthly, daily, losses, payback, CO2; for each the run it
  depicts) and the results kept for the export.
\<close>

datatype widget_state = Normal | Disabled

record ui_state =
  run_button_state :: widget_state
  run_button_text :: string
  export_button_state :: widget_state
  system_details_label :: string
  displayed_results :: "SimulationResults option"
  chart_images :: "SimulationResults option list"
  simulation_results :: "SimulationResults option"

text \<open>
  Everything outside the program that a run depends on: whether the entries parse
  (\<^verbatim>\<open>float(...)\<close> raises ValueError otherwise), the health slider, what \<^verbatim>\<open>get_tmy_data\<close>
  gives (a data frame, or \<^verbatim>\<open>None\<close> when the download fails: lines 43 to 45 catch the
  exception, print it and return \<^verbatim>\<open>None\<close>), what \<^verbatim>\<open>run_simulation\<close> gives on that
  data, and how the chart library and the image library behave in
  \<^verbatim>\<open>update_gui_results\<close>: whether drawing and saving the charts raises for a reason of
  their own (lines 459 to 480), and whether loading the saved images raises and, if so,
  after how many of the five images (lines 504 to 518).
\<close>

record world =
  w_entries :: "py_exception + Scenario"
  w_health_slider :: real
  w_tmy_data :: "py_exception + unit option"
  w_run_simulation :: "py_exception + SimOutput"
  w_draw_charts :: "py_exception option"
  w_load_images :: "nat option"

text \<open>Lines 524 and 525.\<close>

definition simulation_finished :: "string \<Rightarrow> ui_state \<Rightarrow> ui_state" where
  "simulation_finished button_text ui =
     ui\<lparr> run_button_state := Normal, run_button_text := button_text \<rparr>"

text \<open>
  Lines 455 to 522. The function runs as a callback of the window's event loop, outside
  the \<^verbatim>\<open>try\<close> block of \<^verbatim>\<open>run_simulation_task\<close>: an exception in it is not caught by the
  program, and the window stays as the statements before the exception left it. Drawing
  the bar chart of an empty monthly series (line 107) raises IndexError. Up to line 480
  no widget has been touched; the result labels and \<^verbatim>\<open>self.simulation_results\<close>
  are set in lines 482 to 502; the images are loaded one after the other in lines 504
  to 518; only then come the status line, \<^verbatim>\<open>simulation_finished\<close> and the export button.
\<close>

definition update_gui_results :: "world \<Rightarrow> SimOutput \<Rightarrow> Scenario \<Rightarrow> ui_state \<Rightarrow> ui_state" where
  "update_gui_results w out sc ui =
     (let health = system_health_factor (w_health_slider w);
          yield = real_specific_yield (out_specific_yield out) health
      in case (if out_ac_power out = [] then Some IndexError else w_draw_charts w) of
           Some e \<Rightarrow> ui
         | None \<Rightarrow>
             (case scaled_losses yield (out_loss_proportions out) of
                Inl e \<Rightarrow> ui
              | Inr losses \<Rightarrow>
                  (case create_economic_plot (sc_cost sc) yield (sc_price sc)
                          (sc_annual_degradation_rate sc) of
                     Inl e \<Rightarrow> ui
                   | Inr (point, payback) \<Rightarrow>
                       (let results =
                              \<lparr> res_specific_yield = yield,
                                res_annual_savings = yield * sc_price sc,
                                res_payback_period = payback,
                                res_co2_saved_kg = co2_saved_kg yield (sc_co2_intensity sc),
                                res_losses = losses,
                                res_monthly_chart =
                                  monthly_yield (series_mul (out_ac_power out) health),
                                res_monthly_production =
                                  series_mul (monthly_yield (out_ac_power out)) health \<rparr>;
                            labelled =
                              ui\<lparr> displayed_results := Some results,
                                  simulation_results := Some results \<rparr>
                        in case w_load_images w of
                             Some loaded \<Rightarrow>
                               labelled\<lparr> chart_images :=
                                 replicate (min loaded 5) (Some results)
                                   @ drop (min loaded 5) (chart_images labelled) \<rparr>
                           | None \<Rightarrow>
                               (simulation_finished ''Run Simulation''
                                  (labelled\<lparr> chart_images := replicate 5 (Some results),
                                      system_details_label :=
                                        ''Simulated Components: '' @ out_module_name out
                                          @ ''  |  '' @ out_inverter_name out \<rparr>))
                               \<lparr> export_button_state := Normal \<rparr>))))"

text \<open>
  Lines 436 to 453:
  \<^verbatim>\<open>
    try:
        ... float(self.lat_entry.get()) ...
        tmy_data = get_tmy_data(lat, lon, city_name=city_name)
        if tmy_data is not None:
            ... = run_simulation(tmy_data, ...)
            self.after(0, self.update_gui_results, ...)
    except Exception as e:
        print(f"An error occurred during simulation: {e}")
        self.after(0, self.simulation_finished, "Error")
  \<close>
  The callbacks handed to \<^verbatim>\<open>self.after\<close> run in the event loop, after
  \<^verbatim>\<open>start_simulation_thread\<close> has returned; the model applies them in that order.
\<close>

definition run_simulation_task :: "world \<Rightarrow> ui_state \<Rightarrow> ui_state" where
  "run_simulation_task w ui =
     (case w_entries w of
        Inl e \<Rightarrow> simulation_finished ''Error'' ui
      | Inr sc \<Rightarrow>
          (case w_tmy_data w of
             Inl e \<Rightarrow> simulation_finished ''Error'' ui
           | Inr None \<Rightarrow> ui
           | Inr (Some tmy_data) \<Rightarrow>
               (case w_run_simulation w of
                  Inl e \<Rightarrow> simulation_finished ''Error'' ui
                | Inr out \<Rightarrow> update_gui_results w out sc ui)))"

text \<open>Lines 430 to 434.\<close>

definition start_simulation_thread :: "world \<Rightarrow> ui_state \<Rightarrow> ui_state" where
  "start_simulation_thread w ui =
     run_simulation_task w
       (ui\<lparr> run_button_state := Disabled, run_button_text := ''Simulating...'' \<rparr>)"

section \<open>Properties of a run\<close>

text \<open>
  An exception inside the \<^verbatim>\<open>try\<close> block ends the run: the run button is enabled again
  with the text "Error", and neither the results on display nor the kept results change.
\<close>

lemma exception_reenables_run_button:
  assumes "w_entries w = Inl e
           \<or> (w_entries w = Inr sc \<and> w_tmy_data w = Inl e)
           \<or> (w_entries w = Inr sc \<and> w_tmy_data w = Inr (Some d) \<and> w_run_simulation w = Inl e)"
  shows "start_simulation_thread w ui
           = ui\<lparr> run_button_state := Normal, run_button_text := ''Error'' \<rparr>"
  using assms
  by (auto simp: start_simulation_thread_def run_simulation_task_def simulation_finished_def)

text \<open>
  A run in which nothing raises and the weather data arrive ends with results in the
  labels, in all five charts and kept for the export, the run button enabled again and
  the export button enabled.
\<close>

lemma successful_run_shows_results:
  assumes "w_entries w = Inr sc" and "w_tmy_data w = Inr (Some d)"
    and "w_run_simulation w = Inr out" and "out_ac_power out \<noteq> []"
    and "w_draw_charts w = None" and "w_load_images w = None"
  shows "run_button_state (start_simulation_thread w ui) = Normal
         \<and> run_button_text (start_simulation_thread w ui) = ''Run Simulation''
         \<and> export_button_state (start_simulation_thread w ui) = Normal
         \<and> displayed_results (start_simulation_thread w ui) \<noteq> None
         \<and> chart_images (start_simulation_thread w ui)
             = replicate 5 (displayed_results (start_simulation_thread w ui))
         \<and> simulation_results (start_simulation_thread w ui)
             = displayed_results (start_simulation_thread w ui)"
proof -
  let ?y = "real_specific_yield (out_specific_yield out) (system_health_factor (w_health_slider w))"
  obtain losses where l: "scaled_losses ?y (out_loss_proportions out) = Inr losses"
    by (simp add: scaled_losses_def Let_def)
  obtain point p where e:
    "create_economic_plot (sc_cost sc) ?y (sc_price sc) (sc_annual_degradation_rate sc)
       = Inr (point, p)"
    using create_economic_plot_returns by blast
  show ?thesis
    using assms l e
    by (simp add: start_simulation_thread_def run_simulation_task_def update_gui_results_def
        simulation_finished_def Let_def)
qed

text \<open>
  An exception inside \<^verbatim>\<open>update_gui_results\<close> is not caught. When drawing the charts
  raises, the window is left as \<^verbatim>\<open>start_simulation_thread\<close> set it; when loading an image
  raises, the labels and the kept results are those of the new run, but the run button
  is still disabled.
\<close>

lemma drawing_failure_leaves_run_disabled:
  assumes "w_entries w = Inr sc" and "w_tmy_data w = Inr (Some d)"
    and "w_run_simulation w = Inr out"
    and "out_ac_power out = [] \<or> w_draw_charts w = Some e"
  shows "start_simulation_thread w ui
           = ui\<lparr> run_button_state := Disabled, run_button_text := ''Simulating...'' \<rparr>"
  using assms
  by (auto simp: start_simulation_thread_def run_simulation_task_def update_gui_results_def
      Let_def)

lemma image_failure_leaves_run_disabled:
  assumes "w_entries w = Inr sc" and "w_tmy_data w = Inr (Some d)"
    and "w_run_simulation w = Inr out" and "out_ac_power out \<noteq> []"
    and "w_draw_charts w = None"
    and "w_load_images w = Some loaded"
  shows "run_button_state (start_simulation_thread w ui) = Disabled
         \<and> run_button_text (start_simulation_thread w ui) = ''Simulating...''
         \<and> displayed_results (start_simulation_thread w ui) \<noteq> None"
proof -
  let ?y = "real_specific_yield (out_specific_yield out) (system_health_factor (w_health_slider w))"
  obtain losses where l: "scaled_losses ?y (out_loss_proportions out) = Inr losses"
    by (simp add: scaled_losses_def Let_def)
  obtain point p where e:
    "create_economic_plot (sc_cost sc) ?y (sc_price sc) (sc_annual_degradation_rate sc)
       = Inr (point, p)"
    using create_economic_plot_returns by blast
  show ?thesis
    using assms l e
    by (simp add: start_simulation_thread_def run_simulation_task_def update_gui_results_def
        Let_def)
qed

text \<open>
  C9 fails in the program for the failure the claim names. When \<^verbatim>\<open>get_tmy_data\<close> returns
  \<^verbatim>\<open>None\<close> (the weather download failed), \<^verbatim>\<open>run_simulation_task\<close> does nothing at all:
  the window is left as \<^verbatim>\<open>start_simulation_thread\<close> set it, with the run button disabled
  and reading "Simulating...", and no message.
\<close>

theorem weather_failure_leaves_run_disabled:
  "start_simulation_thread
     \<lparr> w_entries = Inr sc, w_health_slider = h, w_tmy_data = Inr None,
       w_run_simulation = sim, w_draw_charts = draw, w_load_images = load \<rparr> ui
   = ui\<lparr> run_button_state := Disabled, run_button_text := ''Simulating...'' \<rparr>"
  by (simp add: start_simulation_thread_def run_simulation_task_def)

section \<open>Monthly aggregation\<close>

text \<open>
  The aggregator as section 4.5 of the specification words it, for comparison with
  \<open>monthly_yield\<close>: the samples are grouped by calendar month, \<open>power * \<Delta>t\<close> is summed
  over the samples of a month, and the sum is divided by 1000. \<open>dt\<close> is the sampling
  interval in hours.
\<close>

definition spec_aggregate_monthly :: "real \<Rightarrow> timestamp series \<Rightarrow> (nat \<times> nat) series" where
  "spec_aggregate_monthly dt s = series_div (resample_ME_sum (series_mul s dt)) 1000"

text \<open>
  The synthetic series of the specification's test: one calendar year, the same power
  at every sample, with a sample at each of the given minutes of every hour (\<open>[0]\<close> for
  an hourly series, \<open>[0, 30]\<close> for a half-hourly one).
\<close>

definition days_in_month :: "nat \<Rightarrow> nat \<Rightarrow> nat" where
  "days_in_month y m =
     (if m = 2 then (if y mod 4 = 0 \<and> (y mod 100 \<noteq> 0 \<or> y mod 400 = 0) then 29 else 28)
      else if m = 4 \<or> m = 6 \<or> m = 9 \<or> m = 11 then 30
      else 31)"

definition hours_in_month :: "nat \<Rightarrow> nat \<Rightarrow> nat" where
  "hours_in_month y m = 24 * days_in_month y m"

definition month_block :: "nat \<Rightarrow> nat list \<Rightarrow> real \<Rightarrow> nat \<Rightarrow> timestamp series" where
  "month_block y mins w m =
     concat (map (\<lambda>d.
       concat (map (\<lambda>h.
         map (\<lambda>mi. (\<lparr> year = y, month = m, day = d, hour = h, minute = mi \<rparr>, w)) mins)
         [0 ..< 24]))
       [1 ..< Suc (days_in_month y m)])"

definition regular_year :: "nat \<Rightarrow> nat list \<Rightarrow> real \<Rightarrow> timestamp series" where
  "regular_year y mins w = concat (map (month_block y mins w) [1 ..< 13])"

definition hourly_year :: "nat \<Rightarrow> real \<Rightarrow> timestamp series" where
  "hourly_year y w = regular_year y [0] w"

text \<open>A short series within 2023, with samples in January and in December.\<close>

definition example_series :: "timestamp series" where
  "example_series =
     [(\<lparr> year = 2023, month = 1, day = 1, hour = 0, minute = 0 \<rparr>, 1000),
      (\<lparr> year = 2023, month = 1, day = 1, hour = 1, minute = 0 \<rparr>, 500),
      (\<lparr> year = 2023, month = 12, day = 31, hour = 23, minute = 0 \<rparr>, 250)]"

section \<open>Properties of the monthly aggregation\<close>

lemma first_key_Min:
  assumes "s \<noteq> []"
  shows "first_key s = Min (set (map (\<lambda>(t, w). month_key t) s))"
proof -
  obtain t w s' where s: "s = (t, w) # s'"
    using assms by (cases s) auto
  show ?thesis
    by (simp add: s Min.set_eq_fold [symmetric])
qed

lemma last_key_Max:
  assumes "s \<noteq> []"
  shows "last_key s = Max (set (map (\<lambda>(t, w). month_key t) s))"
proof -
  obtain t w s' where s: "s = (t, w) # s'"
    using assms by (cases s) auto
  show ?thesis
    by (simp add: s Max.set_eq_fold [symmetric])
qed

lemma month_key_in_year:
  assumes "year t = y" and "1 \<le> month t" and "month t \<le> 12"
  shows "y * 12 \<le> month_key t \<and> month_key t \<le> y * 12 + 11
         \<and> (month_key t = y * 12 + m \<longleftrightarrow> month t = Suc m)"
  using assms by (auto simp: month_key_def)

lemma one_year_keys:
  assumes "\<forall>(t, w) \<in> set s. year t = y \<and> 1 \<le> month t \<and> month t \<le> 12"
    and "\<exists>(t, w) \<in> set s. month t = 1"
    and "\<exists>(t, w) \<in> set s. month t = 12"
  shows "first_key s = y * 12 \<and> last_key s = y * 12 + 11"
proof -
  let ?K = "set (map (\<lambda>(t, w). month_key t) s)"
  have ne: "s \<noteq> []" using assms(2) by auto
  have fin: "finite ?K" by simp
  have bounds: "\<forall>k \<in> ?K. y * 12 \<le> k \<and> k \<le> y * 12 + 11"
    using assms(1) month_key_in_year by fastforce
  obtain t1 w1 where j: "(t1, w1) \<in> set s" "month t1 = 1"
    using assms(2) by auto
  have "month_key t1 = y * 12"
    using j assms(1) by (auto simp: month_key_def)
  then have lo: "y * 12 \<in> ?K"
    using j(1) by force
  obtain t2 w2 where d: "(t2, w2) \<in> set s" "month t2 = 12"
    using assms(3) by auto
  have "month_key t2 = y * 12 + 11"
    using d assms(1) by (auto simp: month_key_def)
  then have hi: "y * 12 + 11 \<in> ?K"
    using d(1) by force
  have "Min ?K = y * 12"
    using fin lo bounds by (intro Min_eqI) auto
  moreover have "Max ?K = y * 12 + 11"
    using fin hi bounds by (intro Max_eqI) auto
  ultimately show ?thesis
    by (simp add: first_key_Min [OF ne] last_key_Max [OF ne])
qed

lemma month_label_in_year:
  assumes "m < 12"
  shows "month_label (y * 12 + m) = (y, Suc m)"
  using assms by (simp add: month_label_def)

lemma month_total_by_month:
  assumes "\<forall>(t, w) \<in> set s. year t = y \<and> 1 \<le> month t \<and> month t \<le> 12"
  shows "month_total (y * 12 + m) s = sum_list (map snd (filter (\<lambda>(t, w). month t = Suc m) s))"
proof -
  have "filter (\<lambda>(t, w). month_key t = y * 12 + m) s = filter (\<lambda>(t, w). month t = Suc m) s"
    using assms month_key_in_year by (intro filter_cong) auto
  then show ?thesis
    by (simp add: month_total_def)
qed

lemma one_year_resample:
  assumes "\<forall>(t, w) \<in> set s. year t = y \<and> 1 \<le> month t \<and> month t \<le> 12"
    and "\<exists>(t, w) \<in> set s. month t = 1"
    and "\<exists>(t, w) \<in> set s. month t = 12"
  shows "length (resample_ME_sum s) = 12"
    and "m < 12 \<Longrightarrow> resample_ME_sum s ! m = ((y, Suc m), month_total (y * 12 + m) s)"
proof -
  have ne: "s \<noteq> []" using assms(2) by auto
  have r: "resample_ME_sum s
             = map (\<lambda>k. (month_label k, month_total k s)) [y * 12 ..< y * 12 + 12]"
    using one_year_keys [OF assms] ne by (simp add: resample_ME_sum_def add.commute)
  show "length (resample_ME_sum s) = 12"
    by (simp add: r)
  show "resample_ME_sum s ! m = ((y, Suc m), month_total (y * 12 + m) s)" if "m < 12"
    using that by (simp add: r month_label_in_year)
qed

lemma series_div_length: "length (series_div s c) = length s"
  by (simp add: series_div_def)

lemma series_div_nth:
  assumes "i < length s"
  shows "series_div s c ! i = (fst (s ! i), snd (s ! i) / c)"
  using assms by (simp add: series_div_def split: prod.splits)

lemma series_mul_one: "series_mul s 1 = s"
  by (induction s) (auto simp: series_mul_def)

lemma monthly_yield_is_hourly_spec: "monthly_yield s = spec_aggregate_monthly 1 s"
  by (simp add: monthly_yield_def spec_aggregate_monthly_def series_mul_one)

lemma one_year_monthly_yield:
  assumes "\<forall>(t, w) \<in> set s. year t = y \<and> 1 \<le> month t \<and> month t \<le> 12"
    and "\<exists>(t, w) \<in> set s. month t = 1"
    and "\<exists>(t, w) \<in> set s. month t = 12"
  shows "length (monthly_yield s) = 12"
    and "m < 12 \<Longrightarrow> monthly_yield s ! m = ((y, Suc m), month_total (y * 12 + m) s / 1000)"
proof -
  show "length (monthly_yield s) = 12"
    by (simp add: monthly_yield_def series_div_length one_year_resample(1) [OF assms])
  show "monthly_yield s ! m = ((y, Suc m), month_total (y * 12 + m) s / 1000)" if "m < 12"
    using that one_year_resample [OF assms]
    by (simp add: monthly_yield_def series_div_nth)
qed

lemma month_total_append: "month_total k (a @ b) = month_total k a + month_total k b"
  by (simp add: month_total_def)

lemma month_total_concat: "month_total k (concat xss) = sum_list (map (month_total k) xss)"
  by (induction xss) (simp_all add: month_total_append, simp add: month_total_def)

lemma constant_series_sum:
  fixes xs :: "('i \<times> real) list"
  assumes "\<forall>p \<in> set xs. snd p = w"
  shows "sum_list (map snd xs) = real (length xs) * w"
  using assms by (induction xs) (auto simp: algebra_simps)

lemma concat_constant_length:
  assumes "\<forall>x \<in> set xs. length (f x) = c"
  shows "length (concat (map f xs)) = length xs * c"
  using assms by (induction xs) auto

lemma month_block_members:
  assumes "(t, v) \<in> set (month_block y mins w m)"
  shows "year t = y \<and> month t = m \<and> v = w"
  using assms by (auto simp: month_block_def)

lemma month_block_length:
  "length (month_block y mins w m) = days_in_month y m * (24 * length mins)"
proof -
  have inner: "length (concat (map (\<lambda>h.
          map (\<lambda>mi. (\<lparr> year = y, month = m, day = d, hour = h, minute = mi \<rparr>, w)) mins)
          [0 ..< 24])) = 24 * length mins" for d
  proof -
    have "length (concat (map (\<lambda>h.
          map (\<lambda>mi. (\<lparr> year = y, month = m, day = d, hour = h, minute = mi \<rparr>, w)) mins)
          [0 ..< 24])) = length [0 ..< (24::nat)] * length mins"
      by (rule concat_constant_length) simp
    then show ?thesis by simp
  qed
  have "length (month_block y mins w m)
          = length [1 ..< Suc (days_in_month y m)] * (24 * length mins)"
    unfolding month_block_def by (rule concat_constant_length) (simp only: inner ball_triv simp_thms)
  then show ?thesis by simp
qed

lemma month_total_block:
  assumes "1 \<le> m"
  shows "month_total (y * 12 + k) (month_block y mins w m)
           = (if m = Suc k then real (days_in_month y m * (24 * length mins)) * w else 0)"
proof (cases "m = Suc k")
  case True
  have "filter (\<lambda>(t, v). month_key t = y * 12 + k) (month_block y mins w m)
          = month_block y mins w m"
    using True month_block_members [of _ _ y mins w m]
    by (intro filter_True) (auto simp: month_key_def)
  moreover have "\<forall>p \<in> set (month_block y mins w m). snd p = w"
    using month_block_members [of _ _ y mins w m] by auto
  ultimately show ?thesis
    using True constant_series_sum [of "month_block y mins w m" w]
    by (simp add: month_total_def month_block_length)
next
  case False
  have "filter (\<lambda>(t, v). month_key t = y * 12 + k) (month_block y mins w m) = []"
    using False assms month_block_members [of _ _ y mins w m]
    by (intro filter_False) (auto simp: month_key_def)
  then show ?thesis
    using False by (simp add: month_total_def)
qed

lemma month_total_regular_year:
  assumes "k < 12"
  shows "month_total (y * 12 + k) (regular_year y mins w)
           = real (days_in_month y (Suc k) * (24 * length mins)) * w"
proof -
  let ?c = "\<lambda>m. real (days_in_month y m * (24 * length mins)) * w"
  have "month_total (y * 12 + k) (regular_year y mins w)
          = sum_list (map (\<lambda>m. month_total (y * 12 + k) (month_block y mins w m)) [1 ..< 13])"
    by (simp add: regular_year_def month_total_concat comp_def)
  also have "\<dots> = sum_list (map (\<lambda>m. if m = Suc k then ?c m else 0) [1 ..< 13])"
    by (intro arg_cong [where f = sum_list] map_cong refl month_total_block) simp
  also have "\<dots> = (\<Sum>m \<in> set [1 ..< 13]. if m = Suc k then ?c m else 0)"
    by (intro sum_list_distinct_conv_sum_set) simp
  also have "\<dots> = ?c (Suc k)"
    using assms by simp
  finally show ?thesis .
qed

lemma regular_year_members:
  assumes "(t, v) \<in> set (regular_year y mins w)"
  shows "year t = y \<and> 1 \<le> month t \<and> month t \<le> 12 \<and> v = w"
proof -
  obtain m where m: "m \<in> set [1 ..< 13]" "(t, v) \<in> set (month_block y mins w m)"
    using assms by (auto simp: regular_year_def)
  show ?thesis
    using m(1) month_block_members [OF m(2)] by auto
qed

lemma days_in_month_pos: "0 < days_in_month y m"
  by (simp add: days_in_month_def)

lemma regular_year_has_month:
  assumes "mins \<noteq> []" and "1 \<le> m" and "m \<le> 12"
  shows "\<exists>(t, v) \<in> set (regular_year y mins w). month t = m"
proof -
  have "0 < length (month_block y mins w m)"
    using assms(1) days_in_month_pos [of y m] by (simp add: month_block_length)
  then obtain p where p: "p \<in> set (month_block y mins w m)"
    by (cases "month_block y mins w m") auto
  obtain t v where tv: "p = (t, v)" by (cases p)
  have "month t = m"
    using month_block_members [of t v y mins w m] p tv by simp
  moreover have "(t, v) \<in> set (regular_year y mins w)"
    using p tv assms(2,3) by (auto simp: regular_year_def)
  ultimately show ?thesis by blast
qed

lemma regular_year_monthly_yield:
  assumes "mins \<noteq> []"
  shows "length (monthly_yield (regular_year y mins w)) = 12"
    and "m < 12 \<Longrightarrow> monthly_yield (regular_year y mins w) ! m
           = ((y, Suc m), real (days_in_month y (Suc m) * (24 * length mins)) * w / 1000)"
proof -
  let ?s = "regular_year y mins w"
  have a: "\<forall>(t, v) \<in> set ?s. year t = y \<and> 1 \<le> month t \<and> month t \<le> 12"
    using regular_year_members [of _ _ y mins w] by auto
  have j: "\<exists>(t, v) \<in> set ?s. month t = 1"
    by (rule regular_year_has_month [OF assms]) simp_all
  have d: "\<exists>(t, v) \<in> set ?s. month t = 12"
    by (rule regular_year_has_month [OF assms]) simp_all
  show "length (monthly_yield ?s) = 12"
    by (rule one_year_monthly_yield(1) [OF a j d])
  show "monthly_yield ?s ! m
          = ((y, Suc m), real (days_in_month y (Suc m) * (24 * length mins)) * w / 1000)"
    if "m < 12"
    using one_year_monthly_yield(2) [OF a j d that] month_total_regular_year [OF that, of y mins w]
    by simp
qed

lemma series_mul_concat: "series_mul (concat xss) c = concat (map (\<lambda>xs. series_mul xs c) xss)"
  by (simp add: series_mul_def map_concat)

lemma series_mul_constant:
  "series_mul (map (\<lambda>x. (f x, w)) xs) c = map (\<lambda>x. (f x, w * c)) xs"
  by (simp add: series_mul_def)

lemma series_mul_month_block: "series_mul (month_block y mins w m) dt = month_block y mins (w * dt) m"
  by (simp add: month_block_def series_mul_concat series_mul_constant comp_def del: upt_Suc)

lemma series_mul_regular_year: "series_mul (regular_year y mins w) dt = regular_year y mins (w * dt)"
  unfolding regular_year_def series_mul_concat
  by (simp add: series_mul_month_block comp_def del: upt_Suc)

text \<open>
  C8, as the program has it. The monthly series is the sum of the power samples of each
  calendar month over 1000, which is the aggregation of the specification with a
  sampling interval of one hour (no \<open>\<Delta>t\<close> is applied). For a series within one calendar
  year that has samples in January and in December it has exactly 12 entries, entry \<open>m\<close>
  being the month \<open>m + 1\<close> of that year with the sum of its samples over 1000; for the
  hourly series of constant 1000 W, each month's value is 1.0 times the hours of the
  month.
\<close>

theorem monthly_aggregation_one_year:
  assumes "\<forall>(t, w) \<in> set s. year t = y \<and> 1 \<le> month t \<and> month t \<le> 12"
    and "\<exists>(t, w) \<in> set s. month t = 1"
    and "\<exists>(t, w) \<in> set s. month t = 12"
    and "m < 12"
  shows "monthly_yield s = spec_aggregate_monthly 1 s
         \<and> length (monthly_yield s) = 12
         \<and> monthly_yield s ! m
             = ((y, Suc m), sum_list (map snd (filter (\<lambda>(t, w). month t = Suc m) s)) / 1000)
         \<and> length (monthly_yield (hourly_year y 1000)) = 12
         \<and> monthly_yield (hourly_year y 1000) ! m
             = ((y, Suc m), 1.0 * real (hours_in_month y (Suc m)))"
proof -
  have p1: "monthly_yield s = spec_aggregate_monthly 1 s"
    by (rule monthly_yield_is_hourly_spec)
  have p2: "length (monthly_yield s) = 12"
    by (rule one_year_monthly_yield(1) [OF assms(1-3)])
  have p3: "monthly_yield s ! m
              = ((y, Suc m), sum_list (map snd (filter (\<lambda>(t, w). month t = Suc m) s)) / 1000)"
    using one_year_monthly_yield(2) [OF assms] month_total_by_month [OF assms(1), of m]
    by simp
  have ne: "[0::nat] \<noteq> []" by simp
  have p4: "length (monthly_yield (hourly_year y 1000)) = 12"
    unfolding hourly_year_def by (rule regular_year_monthly_yield(1) [OF ne])
  have p5: "monthly_yield (hourly_year y 1000) ! m
              = ((y, Suc m), 1.0 * real (hours_in_month y (Suc m)))"
    unfolding hourly_year_def
    using regular_year_monthly_yield(2) [OF ne assms(4), of y 1000]
    by (simp add: hours_in_month_def)
  show ?thesis
    using p1 p2 p3 p4 p5 by blast
qed

theorem monthly_aggregation_one_year_witness:
  "monthly_yield example_series = spec_aggregate_monthly 1 example_series
   \<and> length (monthly_yield example_series) = 12
   \<and> monthly_yield example_series ! 0 = ((2023, 1), 3 / 2)
   \<and> monthly_yield (hourly_year 2023 1000) ! 0 = ((2023, 1), 744)"
proof -
  have a: "\<forall>(t, w) \<in> set example_series. year t = 2023 \<and> 1 \<le> month t \<and> month t \<le> 12"
    by (simp add: example_series_def)
  have j: "\<exists>(t, w) \<in> set example_series. month t = 1"
    by (simp add: example_series_def)
  have d: "\<exists>(t, w) \<in> set example_series. month t = 12"
    by (simp add: example_series_def)
  have m: "(0::nat) < 12" by simp
  have f: "sum_list (map snd (filter (\<lambda>(t, w). month t = Suc 0) example_series)) = 1500"
    by (simp add: example_series_def)
  have h: "hours_in_month 2023 (Suc 0) = 744"
    by (simp add: hours_in_month_def days_in_month_def)
  note t = monthly_aggregation_one_year [OF a j d m]
  have c1: "monthly_yield example_series = spec_aggregate_monthly 1 example_series"
    using t by (rule conjunct1)
  have c2: "length (monthly_yield example_series) = 12"
    using t by blast
  have "monthly_yield example_series ! 0
          = ((2023, Suc 0),
             sum_list (map snd (filter (\<lambda>(t, w). month t = Suc 0) example_series)) / 1000)"
    using t by blast
  then have c3: "monthly_yield example_series ! 0 = ((2023, 1), 3 / 2)"
    by (simp only: f) simp
  have "monthly_yield (hourly_year 2023 1000) ! 0
          = ((2023, Suc 0), 1.0 * real (hours_in_month 2023 (Suc 0)))"
    using t by blast
  then have c4: "monthly_yield (hourly_year 2023 1000) ! 0 = ((2023, 1), 744)"
    by (simp only: h) simp
  show ?thesis
    using c1 c2 c3 c4 by blast
qed

text \<open>
  The claim C8 as the specification words it fails for a series that is not hourly: for
  the half-hourly series of constant 1000 W over 2023, the January entry of the program
  is 1488, twice the 744 kWh that summing \<open>power * \<Delta>t\<close> with \<open>\<Delta>t\<close> of half an hour gives.
\<close>

theorem monthly_aggregation_counterexample:
  "monthly_yield (regular_year 2023 [0, 30] 1000) ! 0 = ((2023, 1), 1488)
   \<and> spec_aggregate_monthly (1/2) (regular_year 2023 [0, 30] 1000) ! 0 = ((2023, 1), 744)"
proof -
  have ne: "[0, 30::nat] \<noteq> []" by simp
  have m: "(0::nat) < 12" by simp
  have d: "days_in_month 2023 (Suc 0) = 31"
    by (simp add: days_in_month_def)
  have code: "monthly_yield (regular_year 2023 [0, 30] 1000) ! 0 = ((2023, 1), 1488)"
    using regular_year_monthly_yield(2) [OF ne m, of 2023 1000] d by simp
  have "spec_aggregate_monthly (1/2) (regular_year 2023 [0, 30] 1000)
          = monthly_yield (regular_year 2023 [0, 30] (1000 * (1/2)))"
    by (simp only: spec_aggregate_monthly_def monthly_yield_def series_mul_regular_year)
  then have spec: "spec_aggregate_monthly (1/2) (regular_year 2023 [0, 30] 1000) ! 0
                     = ((2023, 1), 744)"
    using regular_year_monthly_yield(2) [OF ne m, of 2023 "1000 * (1/2)"] d by simp
  show ?thesis
    using code spec by blast
qed

section \<open>Binary64 rounding and the two monthly series\<close>

text \<open>
  The monthly chart and the exported monthly production come from the same samples by the
  same operations in a different order. To compare them value for value, the rounding of
  each float operation is needed: a float operation is the exact operation followed by
  rounding. \<open>f64\<close> rounds a real to the nearest binary64 number, ties to even, with a
  significand of 53 bits: \<open>binade x\<close> is the exponent \<open>e\<close> with \<open>2^e \<le> x < 2^(e+1)\<close>, and
  the result is a multiple of \<open>2^(e-52)\<close>. Overflow and subnormal numbers are not
  modelled (the exponent has no bounds).
\<close>

definition pow2 :: "int \<Rightarrow> real" where
  "pow2 e = (if 0 \<le> e then 2 ^ nat e else 1 / 2 ^ nat (- e))"

function binade_up :: "real \<Rightarrow> int" where
  "binade_up x = (if 2 \<le> x then 1 + binade_up (x / 2) else 0)"
  by pat_completeness auto
termination
proof (relation "measure (\<lambda>x. nat \<lfloor>x\<rfloor>)")
  show "wf (measure (\<lambda>x::real. nat \<lfloor>x\<rfloor>))" by simp
next
  fix x :: real
  assume "2 \<le> x"
  then have "\<lfloor>x / 2\<rfloor> < \<lfloor>x\<rfloor>" by linarith
  moreover have "0 < \<lfloor>x\<rfloor>" using \<open>2 \<le> x\<close> by linarith
  ultimately show "(x / 2, x) \<in> measure (\<lambda>x. nat \<lfloor>x\<rfloor>)" by simp
qed

function binade_down :: "real \<Rightarrow> int" where
  "binade_down x = (if 0 < x \<and> x < 1 then binade_down (2 * x) - 1 else 0)"
  by pat_completeness auto
termination
proof (relation "measure (\<lambda>x. nat \<lceil>1 / x\<rceil>)")
  show "wf (measure (\<lambda>x::real. nat \<lceil>1 / x\<rceil>))" by simp
next
  fix x :: real
  assume a: "0 < x \<and> x < 1"
  let ?y = "1 / x"
  have y: "1 < ?y" using a by simp
  have c2: "2 \<le> \<lceil>?y\<rceil>" using y by linarith
  have "?y / 2 \<le> of_int \<lceil>?y\<rceil> / 2"
    by (simp add: le_of_int_ceiling)
  also have "\<dots> \<le> of_int (\<lceil>?y\<rceil> - 1)"
    using c2 by simp
  finally have "\<lceil>?y / 2\<rceil> \<le> \<lceil>?y\<rceil> - 1"
    by (rule ceiling_le)
  moreover have "1 / (2 * x) = ?y / 2" by simp
  ultimately have "\<lceil>1 / (2 * x)\<rceil> < \<lceil>1 / x\<rceil>"
    by (simp only:)
  then have "nat \<lceil>1 / (2 * x)\<rceil> < nat \<lceil>1 / x\<rceil>"
    using c2 by linarith
  then show "(2 * x, x) \<in> measure (\<lambda>x. nat \<lceil>1 / x\<rceil>)"
    by (simp only: in_measure)
qed

definition binade :: "real \<Rightarrow> int" where
  "binade x = (if 1 \<le> x then binade_up x else binade_down x)"

definition round_half_even :: "real \<Rightarrow> int" where
  "round_half_even r =
     (let n = \<lfloor>r\<rfloor>; d = r - of_int n
      in if d < 1 / 2 then n else if 1 / 2 < d then n + 1 else if even n then n else n + 1)"

definition f64 :: "real \<Rightarrow> real" where
  "f64 x =
     (if x = 0 then 0
      else let q = pow2 (binade \<bar>x\<bar> - 52) in of_int (round_half_even (x / q)) * q)"

text \<open>
  The operations of the two paths, with the rounding \<open>rnd\<close> applied after every
  arithmetic operation: \<open>f64\<close> for the program, the identity for exact arithmetic.
  pandas adds the samples of a month by compensated (Kahan) summation, in index order:
  \<^verbatim>\<open>y = val - compensation; t = sumx + y; compensation = t - sumx - y; sumx = t\<close>.
\<close>

definition series_mul_fl :: "(real \<Rightarrow> real) \<Rightarrow> 'i series \<Rightarrow> real \<Rightarrow> 'i series" where
  "series_mul_fl rnd s c = map (\<lambda>(t, w). (t, rnd (w * c))) s"

definition series_div_fl :: "(real \<Rightarrow> real) \<Rightarrow> 'i series \<Rightarrow> real \<Rightarrow> 'i series" where
  "series_div_fl rnd s c = map (\<lambda>(t, w). (t, rnd (w / c))) s"

definition kahan_step :: "(real \<Rightarrow> real) \<Rightarrow> real \<Rightarrow> real \<times> real \<Rightarrow> real \<times> real" where
  "kahan_step rnd val acc =
     (let sumx = fst acc;
          compensation = snd acc;
          y = rnd (val - compensation);
          t = rnd (sumx + y)
      in (t, rnd (rnd (t - sumx) - y)))"

definition kahan_sum :: "(real \<Rightarrow> real) \<Rightarrow> real list \<Rightarrow> real" where
  "kahan_sum rnd vals = fst (fold (kahan_step rnd) vals (0, 0))"

definition month_total_fl :: "(real \<Rightarrow> real) \<Rightarrow> nat \<Rightarrow> timestamp series \<Rightarrow> real" where
  "month_total_fl rnd k s = kahan_sum rnd (map snd (filter (\<lambda>(t, w). month_key t = k) s))"

definition resample_ME_sum_fl :: "(real \<Rightarrow> real) \<Rightarrow> timestamp series \<Rightarrow> (nat \<times> nat) series" where
  "resample_ME_sum_fl rnd s =
     (if s = [] then []
      else map (\<lambda>k. (month_label k, month_total_fl rnd k s)) [first_key s ..< Suc (last_key s)])"

text \<open>
  The series of the monthly chart, lines 459 and 104:
  \<^verbatim>\<open>(ac_power * system_health_factor).resample('ME').sum() / 1000\<close>;
  and the series kept for the CSV export, line 500:
  \<^verbatim>\<open>(ac_power.resample('ME').sum() / 1000) * system_health_factor\<close>.
\<close>

definition chart_monthly ::
  "(real \<Rightarrow> real) \<Rightarrow> timestamp series \<Rightarrow> real \<Rightarrow> (nat \<times> nat) series" where
  "chart_monthly rnd ac_power health =
     series_div_fl rnd (resample_ME_sum_fl rnd (series_mul_fl rnd ac_power health)) 1000"

definition export_monthly ::
  "(real \<Rightarrow> real) \<Rightarrow> timestamp series \<Rightarrow> real \<Rightarrow> (nat \<times> nat) series" where
  "export_monthly rnd ac_power health =
     series_mul_fl rnd (series_div_fl rnd (resample_ME_sum_fl rnd ac_power) 1000) health"

declare binade_up.simps [simp del]

declare binade_down.simps [simp del]

section \<open>Properties of the two monthly series\<close>

lemma f64_health_70: "f64 (system_health_factor 70) = 3152519739159347 / 4503599627370496"
  by (simp add: system_health_factor_def f64_def binade_def binade_up.simps binade_down.simps round_half_even_def pow2_def
      Let_def)

lemma chart_example_january:
  "chart_monthly f64 example_series (3152519739159347 / 4503599627370496) ! 0
     = ((2023, 1), 4728779608739021 / 4503599627370496)"
  by (simp add: chart_monthly_def series_div_fl_def resample_ME_sum_fl_def month_total_fl_def
      kahan_sum_def kahan_step_def series_mul_fl_def example_series_def month_key_def
      month_label_def f64_def binade_def binade_up.simps binade_down.simps round_half_even_def pow2_def
      Let_def)

lemma export_example_january:
  "export_monthly f64 example_series (3152519739159347 / 4503599627370496) ! 0
     = ((2023, 1), 4728779608739020 / 4503599627370496)"
  by (simp add: export_monthly_def series_div_fl_def resample_ME_sum_fl_def month_total_fl_def
      kahan_sum_def kahan_step_def series_mul_fl_def example_series_def month_key_def
      month_label_def f64_def binade_def binade_up.simps binade_down.simps round_half_even_def pow2_def
      Let_def)

lemma kahan_fold_exact:
  "fold (kahan_step (\<lambda>x. x)) vals (sumx, 0) = (sumx + sum_list vals, 0)"
  by (induction vals arbitrary: sumx) (simp_all add: kahan_step_def Let_def)

lemma kahan_sum_exact: "kahan_sum (\<lambda>x. x) vals = sum_list vals"
  by (simp add: kahan_sum_def kahan_fold_exact)

lemma series_mul_fl_exact: "series_mul_fl (\<lambda>x. x) s c = series_mul s c"
  by (simp add: series_mul_fl_def series_mul_def)

lemma series_div_fl_exact: "series_div_fl (\<lambda>x. x) s c = series_div s c"
  by (simp add: series_div_fl_def series_div_def)

lemma resample_ME_sum_fl_exact: "resample_ME_sum_fl (\<lambda>x. x) s = resample_ME_sum s"
  by (simp add: resample_ME_sum_fl_def resample_ME_sum_def month_total_fl_def month_total_def
      kahan_sum_exact)

lemma chart_monthly_exact:
  "chart_monthly (\<lambda>x. x) ac_power health = monthly_yield (series_mul ac_power health)"
  by (simp add: chart_monthly_def monthly_yield_def series_mul_fl_exact series_div_fl_exact
      resample_ME_sum_fl_exact)

lemma export_monthly_exact:
  "export_monthly (\<lambda>x. x) ac_power health = series_mul (monthly_yield ac_power) health"
  by (simp add: export_monthly_def monthly_yield_def series_mul_fl_exact series_div_fl_exact
      resample_ME_sum_fl_exact)

lemma exact_monthly_paths_agree:
  "monthly_yield (series_mul ac_power health) = series_mul (monthly_yield ac_power) health"
  by (simp add: monthly_yield_def resample_mul series_div_mul_commute)

lemma series_mul_fl_index: "map fst (series_mul_fl rnd s c) = map fst s"
  by (induction s) (auto simp: series_mul_fl_def)

lemma series_div_fl_index: "map fst (series_div_fl rnd s c) = map fst s"
  by (induction s) (auto simp: series_div_fl_def)

lemma first_key_index:
  "first_key s = (case map fst s of [] \<Rightarrow> 0 | t # ts \<Rightarrow> fold min (map month_key ts) (month_key t))"
proof (cases s)
  case Nil
  then show ?thesis by simp
next
  case (Cons p s')
  obtain t w where p: "p = (t, w)" by (cases p)
  have "(\<lambda>(t, w). month_key t) = (\<lambda>x :: timestamp \<times> real. month_key (fst x))"
    by (rule ext) (simp add: split_beta)
  then show ?thesis by (simp add: Cons p comp_def)
qed

lemma last_key_index:
  "last_key s = (case map fst s of [] \<Rightarrow> 0 | t # ts \<Rightarrow> fold max (map month_key ts) (month_key t))"
proof (cases s)
  case Nil
  then show ?thesis by simp
next
  case (Cons p s')
  obtain t w where p: "p = (t, w)" by (cases p)
  have "(\<lambda>(t, w). month_key t) = (\<lambda>x :: timestamp \<times> real. month_key (fst x))"
    by (rule ext) (simp add: split_beta)
  then show ?thesis by (simp add: Cons p comp_def)
qed

lemma resample_index:
  assumes "map fst s = map fst s'"
  shows "map fst (resample_ME_sum_fl rnd s) = map fst (resample_ME_sum s')"
proof -
  have e: "s = [] \<longleftrightarrow> s' = []"
    using assms by (metis map_is_Nil_conv)
  have "first_key s = first_key s'" "last_key s = last_key s'"
    using assms by (simp_all add: first_key_index last_key_index)
  then show ?thesis
    using e by (simp add: resample_ME_sum_fl_def resample_ME_sum_def comp_def)
qed

lemma chart_monthly_index:
  "map fst (chart_monthly rnd ac_power health) = map fst (resample_ME_sum ac_power)"
  by (simp add: chart_monthly_def series_div_fl_index resample_index series_mul_fl_index)

lemma export_monthly_index:
  "map fst (export_monthly rnd ac_power health) = map fst (resample_ME_sum ac_power)"
  by (simp add: export_monthly_def series_div_fl_index resample_index series_mul_fl_index)

lemma series_mul_nth:
  assumes "i < length s"
  shows "series_mul s c ! i = (fst (s ! i), snd (s ! i) * c)"
  using assms by (simp add: series_mul_def split: prod.splits)

lemma one_year_export_exact:
  assumes "\<forall>(t, w) \<in> set s. year t = y \<and> 1 \<le> month t \<and> month t \<le> 12"
    and "\<exists>(t, w) \<in> set s. month t = 1"
    and "\<exists>(t, w) \<in> set s. month t = 12"
    and "m < 12"
  shows "export_monthly (\<lambda>x. x) s health ! m
           = ((y, Suc m),
              sum_list (map snd (filter (\<lambda>(t, w). month t = Suc m) s)) / 1000 * health)"
proof -
  have len: "m < length (monthly_yield s)"
    using one_year_monthly_yield(1) [OF assms(1-3)] assms(4) by simp
  have "monthly_yield s ! m
          = ((y, Suc m), sum_list (map snd (filter (\<lambda>(t, w). month t = Suc m) s)) / 1000)"
    using one_year_monthly_yield(2) [OF assms] month_total_by_month [OF assms(1), of m]
    by simp
  then show ?thesis
    using series_mul_nth [OF len, of health] by (simp add: export_monthly_exact)
qed

text \<open>
  C10, as the program has it. The series of the monthly chart and the series kept for the
  CSV export have the same calendar months in the same order, whatever the rounding,
  and their values are equal in exact arithmetic, that is, they agree up to the rounding
  of the float operations. For a series within one calendar year that has samples in
  January and in December both have 12 entries, and in exact arithmetic entry \<open>m\<close> is the
  month \<open>m + 1\<close> of that year with the sum of its samples over 1000 times the health
  factor.
\<close>

theorem chart_and_export_agree_up_to_rounding:
  "map fst (chart_monthly rnd ac_power health) = map fst (export_monthly rnd ac_power health)
   \<and> chart_monthly (\<lambda>x. x) ac_power health = export_monthly (\<lambda>x. x) ac_power health
   \<and> ((\<forall>(t, w) \<in> set ac_power. year t = y \<and> 1 \<le> month t \<and> month t \<le> 12)
        \<and> (\<exists>(t, w) \<in> set ac_power. month t = 1)
        \<and> (\<exists>(t, w) \<in> set ac_power. month t = 12)
       \<longrightarrow> length (chart_monthly rnd ac_power health) = 12
           \<and> length (export_monthly rnd ac_power health) = 12
           \<and> (\<forall>m<12. export_monthly (\<lambda>x. x) ac_power health ! m
                 = ((y, Suc m),
                    sum_list (map snd (filter (\<lambda>(t, w). month t = Suc m) ac_power)) / 1000
                      * health)))"
proof -
  have months: "map fst (chart_monthly rnd ac_power health)
                  = map fst (export_monthly rnd ac_power health)"
    by (simp only: chart_monthly_index export_monthly_index)
  have exact: "chart_monthly (\<lambda>x. x) ac_power health = export_monthly (\<lambda>x. x) ac_power health"
    by (simp only: chart_monthly_exact export_monthly_exact exact_monthly_paths_agree)
  have twelve: "length (chart_monthly rnd ac_power health) = 12
                \<and> length (export_monthly rnd ac_power health) = 12
                \<and> (\<forall>m<12. export_monthly (\<lambda>x. x) ac_power health ! m
                      = ((y, Suc m),
                         sum_list (map snd (filter (\<lambda>(t, w). month t = Suc m) ac_power)) / 1000
                           * health))"
    if a: "\<forall>(t, w) \<in> set ac_power. year t = y \<and> 1 \<le> month t \<and> month t \<le> 12"
      and j: "\<exists>(t, w) \<in> set ac_power. month t = 1"
      and d: "\<exists>(t, w) \<in> set ac_power. month t = 12"
  proof -
    have "length (map fst (resample_ME_sum ac_power)) = 12"
      using one_year_resample(1) [OF a j d] by simp
    then have "length (map fst (chart_monthly rnd ac_power health)) = 12"
      "length (map fst (export_monthly rnd ac_power health)) = 12"
      by (simp_all only: chart_monthly_index export_monthly_index)
    then show ?thesis
      using one_year_export_exact [OF a j d] by simp
  qed
  show ?thesis
    using months exact twelve by blast
qed

theorem chart_and_export_agree_up_to_rounding_witness:
  "map fst (chart_monthly f64 example_series (f64 (system_health_factor 70)))
     = map fst (export_monthly f64 example_series (f64 (system_health_factor 70)))
   \<and> chart_monthly (\<lambda>x. x) example_series (f64 (system_health_factor 70))
       = export_monthly (\<lambda>x. x) example_series (f64 (system_health_factor 70))
   \<and> length (chart_monthly f64 example_series (f64 (system_health_factor 70))) = 12
   \<and> length (export_monthly f64 example_series (f64 (system_health_factor 70))) = 12
   \<and> export_monthly (\<lambda>x. x) example_series (f64 (system_health_factor 70)) ! 0
       = ((2023, Suc 0),
          sum_list (map snd (filter (\<lambda>(t, w). month t = Suc 0) example_series)) / 1000
            * f64 (system_health_factor 70))"
proof -
  have a: "\<forall>(t, w) \<in> set example_series. year t = 2023 \<and> 1 \<le> month t \<and> month t \<le> 12"
    by (simp add: example_series_def)
  have j: "\<exists>(t, w) \<in> set example_series. month t = 1"
    by (simp add: example_series_def)
  have d: "\<exists>(t, w) \<in> set example_series. month t = 12"
    by (simp add: example_series_def)
  note t = chart_and_export_agree_up_to_rounding
             [of f64 example_series "f64 (system_health_factor 70)" 2023]
  have months: "map fst (chart_monthly f64 example_series (f64 (system_health_factor 70)))
                  = map fst (export_monthly f64 example_series (f64 (system_health_factor 70)))"
    using t by (rule conjunct1)
  have exact: "chart_monthly (\<lambda>x. x) example_series (f64 (system_health_factor 70))
                 = export_monthly (\<lambda>x. x) example_series (f64 (system_health_factor 70))"
    using t by blast
  have year: "length (chart_monthly f64 example_series (f64 (system_health_factor 70))) = 12
      \<and> length (export_monthly f64 example_series (f64 (system_health_factor 70))) = 12
      \<and> (\<forall>m<12. export_monthly (\<lambda>x. x) example_series (f64 (system_health_factor 70)) ! m
             = ((2023, Suc m),
                sum_list (map snd (filter (\<lambda>(t, w). month t = Suc m) example_series)) / 1000
                  * f64 (system_health_factor 70)))"
    using t a j d by blast
  then have january:
    "export_monthly (\<lambda>x. x) example_series (f64 (system_health_factor 70)) ! 0
       = ((2023, Suc 0),
          sum_list (map snd (filter (\<lambda>(t, w). month t = Suc 0) example_series)) / 1000
            * f64 (system_health_factor 70))"
    by simp
  show ?thesis
    using months exact year january by blast
qed

text \<open>
  The claim C10 as stated fails in binary64: for the short series of 2023 and a health
  slider at 70, the January value of the chart is 1.05 and the one kept for the export
  is 1.0499999999999998 (the binary64 number just below).
\<close>

theorem chart_and_export_counterexample:
  "snd (chart_monthly f64 example_series (f64 (system_health_factor 70)) ! 0)
     = 4728779608739021 / 4503599627370496
   \<and> snd (export_monthly f64 example_series (f64 (system_health_factor 70)) ! 0)
       = 4728779608739020 / 4503599627370496"
  by (simp add: f64_health_70 chart_example_january export_example_january)

end
